theory Spec2Isabelle
  imports Complex_Main "HOL-Library.Multiset"
begin

section \<open>JavaScript values used by the cover engine\<close>

text \<open>
  JavaScript numbers are modelled as exact rationals: no claim below depends on rounding.
  Where the source reads a property that may be absent, or coerces a value to a boolean
  or to a number, the value is a \<open>jsval\<close> and the coercion is written out.
\<close>

datatype jsval = Undefined | Bool bool | Num rat | Str string | NaN | Obj

text \<open>
  ToBoolean: \<open>undefined\<close>, \<open>false\<close>, \<open>0\<close>, \<open>NaN\<close> and the empty string are falsy;
  every object or function (\<open>Obj\<close>) is truthy.
\<close>

fun truthy :: "jsval \<Rightarrow> bool" where
  "truthy Undefined = False"
| "truthy (Bool b) = b"
| "truthy (Num n) = (n \<noteq> 0)"
| "truthy (Str s) = (s \<noteq> [])"
| "truthy NaN = False"
| "truthy Obj = True"

text \<open>
  ToNumber, with \<open>None\<close> for \<open>NaN\<close>. The only strings and objects that reach a
  numeric coercion below are values read from the table \<open>ACTOR_SIZES\<close>: size labels
  such as \<open>"tiny"\<close>, which are not numeric literals, and inherited functions; both
  coerce to \<open>NaN\<close>.
\<close>

fun toNumber :: "jsval \<Rightarrow> rat option" where
  "toNumber Undefined = None"
| "toNumber (Bool b) = Some (if b then 1 else 0)"
| "toNumber (Num n) = Some n"
| "toNumber (Str s) = None"
| "toNumber NaN = None"
| "toNumber Obj = None"

text \<open>\<open>Math.max(a, b)\<close>, \<open>v + 1\<close> on a number, and the relational \<open>a > b\<close> with a numeric right operand.\<close>

definition Math_max :: "jsval \<Rightarrow> jsval \<Rightarrow> jsval" where
  "Math_max a b =
     (case (toNumber a, toNumber b) of (Some x, Some y) \<Rightarrow> Num (max x y) | _ \<Rightarrow> NaN)"

definition js_plus1 :: "jsval \<Rightarrow> jsval" where
  "js_plus1 v = (case toNumber v of Some x \<Rightarrow> Num (x + 1) | None \<Rightarrow> NaN)"

definition js_gt :: "jsval \<Rightarrow> jsval \<Rightarrow> bool" where
  "js_gt a b = (case (toNumber a, toNumber b) of (Some x, Some y) \<Rightarrow> x > y | _ \<Rightarrow> False)"

section \<open>Polygon utilities (PIXI.Polygon extensions)\<close>

text \<open>
  A \<open>PIXI.Polygon\<close> stores its vertices as one flat array \<open>points = [x0, y0, x1, y1, ...]\<close>.
  \<open>isClosed\<close> is a property of the host class, read by the iterators; it is a field here.
\<close>

datatype Point = Point rat rat

record Polygon =
  points :: "rat list"
  isClosed :: bool

text \<open>
  \<open>this.points[i]\<close>: an index past the end of a JavaScript array reads \<open>undefined\<close>
  (here \<open>None\<close>), and \<open>new PIXI.Point(x, y)\<close> replaces an \<open>undefined\<close> argument by
  its default \<open>0\<close>.
\<close>

definition arr_at :: "rat list \<Rightarrow> nat \<Rightarrow> rat option" where
  "arr_at xs i = (if i < length xs then Some (xs ! i) else None)"

definition PIXI_Point :: "rat option \<Rightarrow> rat option \<Rightarrow> Point" where
  "PIXI_Point a b =
     Point (case a of None \<Rightarrow> 0 | Some v \<Rightarrow> v) (case b of None \<Rightarrow> 0 | Some v \<Rightarrow> v)"

text \<open>
  \<open>iteratePoints\<close>: the generator's yields, in order.
  \<^verbatim>\<open>
  const dropped = (!this.isClosed || close) ? 0 : 2;
  const ln = this.points.length - dropped;
  for (let i = 0; i < ln; i += 2) yield new PIXI.Point(this.points[i], this.points[i + 1]);
  \<close>
  \<open>ln\<close> (here \<open>len\<close>) may be negative (a closed polygon with an empty array), hence an \<open>int\<close>.
\<close>

function iteratePoints_loop :: "rat list \<Rightarrow> int \<Rightarrow> nat \<Rightarrow> Point list" where
  "iteratePoints_loop pts len i =
     (if int i < len
      then PIXI_Point (arr_at pts i) (arr_at pts (i + 1)) # iteratePoints_loop pts len (i + 2)
      else [])"
  by pat_completeness auto
termination
  by (relation "measure (\<lambda>(pts, len, i). nat (len - int i))") auto

definition iteratePoints :: "Polygon \<Rightarrow> bool \<Rightarrow> Point list" where
  "iteratePoints P close =
     (let dropped = (if \<not> isClosed P \<or> close then 0 else 2);
          len = int (length (points P)) - dropped
      in iteratePoints_loop (points P) len 0)"

text \<open>
  \<open>iterateEdges\<close>: the yielded edges \<open>{A, B}\<close>, in order. The source also computes
  \<open>dropped\<close> and \<open>iter = ln - dropped\<close> but never reads them: the loop runs to \<open>ln\<close>.
  \<^verbatim>\<open>
  const ln = this.points.length;
  if ( ln < 4 ) return;
  const firstA = new PIXI.Point(this.points[0], this.points[1]);
  let A = firstA;
  for (let i = 2; i < ln; i += 2) {
    const B = new PIXI.Point(this.points[i], this.points[i + 1]);
    yield { A, B };  A = B; }
  if ( close ) { const B = firstA; yield { A, B }; }
  \<close>
  The loop returns the edges it yielded together with the final value of \<open>A\<close>.
\<close>

datatype Edge = Edge Point Point

function iterateEdges_loop :: "rat list \<Rightarrow> nat \<Rightarrow> Point \<Rightarrow> nat \<Rightarrow> Edge list \<times> Point" where
  "iterateEdges_loop pts len a i =
     (if i < len
      then (let b = PIXI_Point (arr_at pts i) (arr_at pts (i + 1));
                (es, a') = iterateEdges_loop pts len b (i + 2)
            in (Edge a b # es, a'))
      else ([], a))"
  by pat_completeness auto
termination
  by (relation "measure (\<lambda>(pts, len, a, i). len - i)") auto

definition iterateEdges :: "Polygon \<Rightarrow> bool \<Rightarrow> Edge list" where
  "iterateEdges P close =
     (let pts = points P; len = length pts
      in if len < 4 then []
         else (let firstA = PIXI_Point (arr_at pts 0) (arr_at pts 1);
                   (es, a) = iterateEdges_loop pts len firstA 2
               in if close then es @ [Edge a firstA] else es))"

text \<open>
  The vertex sequence a coordinate array stands for: its consecutive pairs. (Stated from
  the specification's wording, to compare \<open>iteratePoints\<close> with.)
\<close>

fun vertices :: "rat list \<Rightarrow> Point list" where
  "vertices (a # b # r) = Point a b # vertices r"
| "vertices _ = []"

definition open_triangle :: Polygon where
  "open_triangle = \<lparr>points = [0, 0, 1, 0, 0, 1], isClosed = False\<rparr>"

definition closed_triangle :: Polygon where
  "closed_triangle = \<lparr>points = [0, 0, 1, 0, 0, 1, 0, 0], isClosed = True\<rparr>"

section \<open>Cover types and their catalog\<close>

text \<open>
  A \<open>CoverType\<close> object with its document (\<open>CoverTypeData\<close>). The catalog
  \<open>coverObjectsMap\<close> is a \<open>Map\<close> from id to object in which every object is stored
  under its own id, so an object is identified by its \<open>ct_id\<close> and the map is the list of
  its values in insertion order. \<open>priority\<close> is \<open>number|null\<close>.
\<close>

record CoverType =
  ct_id :: string
  percentThreshold :: rat
  priority :: "rat option"
  canOverlap :: bool
  icon :: string
  includeWalls :: bool
  includeTokens :: bool

text \<open>
  \<open>!coverType.document.priority\<close> coerces to a boolean: \<open>null\<close> and \<open>0\<close> are falsy.
  \<open>b.document.priority - a.document.priority\<close> coerces to a number: \<open>null\<close> is \<open>0\<close>.
\<close>

definition has_priority :: "CoverType \<Rightarrow> bool" where
  "has_priority c = (case priority c of None \<Rightarrow> False | Some n \<Rightarrow> n \<noteq> 0)"

definition priority_num :: "CoverType \<Rightarrow> rat" where
  "priority_num c = (case priority c of None \<Rightarrow> 0 | Some n \<Rightarrow> n)"

text \<open>
  The static state of the class: the catalog, the two derived arrays and the flag
  \<open>#coverTypesModified\<close>, which starts as \<open>true\<close>.
\<close>

record Catalog =
  coverObjectsMap :: "CoverType list"
  coverTypesOrdered :: "CoverType list"
  coverTypesUnordered :: "CoverType list"
  coverTypesModified :: bool

definition initial_catalog :: Catalog where
  "initial_catalog =
     \<lparr>coverObjectsMap = [], coverTypesOrdered = [], coverTypesUnordered = [],
      coverTypesModified = True\<rparr>"

text \<open>\<open>static coverTypesUpdated() { CoverType.#coverTypesModified ||= true; }\<close>\<close>

definition coverTypesUpdated :: "Catalog \<Rightarrow> Catalog" where
  "coverTypesUpdated s = s\<lparr>coverTypesModified := coverTypesModified s \<or> True\<rparr>"

text \<open>
  \<open>#updateCoverTypesOrder\<close>: both arrays are emptied, every value of the catalog is pushed
  onto one of them, and the ordered array is sorted with the comparator
  \<open>(a, b) => b.document.priority - a.document.priority\<close>. \<open>Array.prototype.sort\<close> is
  stable, as is \<open>sort_key\<close>; sorting on the negated priority is the descending order.
\<close>

fun order_loop ::
  "CoverType list \<Rightarrow> CoverType list \<times> CoverType list \<Rightarrow> CoverType list \<times> CoverType list"
where
  "order_loop [] acc = acc"
| "order_loop (c # cs) (ord, un) =
     (if \<not> has_priority c then order_loop cs (ord, un @ [c])
      else order_loop cs (ord @ [c], un))"

definition updateCoverTypesOrder :: "Catalog \<Rightarrow> Catalog" where
  "updateCoverTypesOrder s =
     (let (ord, un) = order_loop (coverObjectsMap s) ([], [])
      in s\<lparr>coverTypesOrdered := sort_key (\<lambda>c. - priority_num c) ord,
            coverTypesUnordered := un,
            coverTypesModified := False\<rparr>)"

text \<open>The two getters return the array and the state they leave behind.\<close>

definition get_coverTypesOrdered :: "Catalog \<Rightarrow> CoverType list \<times> Catalog" where
  "get_coverTypesOrdered s =
     (let s' = (if coverTypesModified s then updateCoverTypesOrder s else s)
      in (coverTypesOrdered s', s'))"

definition get_coverTypesUnordered :: "Catalog \<Rightarrow> CoverType list \<times> Catalog" where
  "get_coverTypesUnordered s =
     (let s' = (if coverTypesModified s then updateCoverTypesOrder s else s)
      in (coverTypesUnordered s', s'))"

text \<open>
  Modelled from the spec: the constructor and \<open>delete\<close> of \<open>AbstractCoverObject\<close>, which
  put an object into \<open>coverObjectsMap\<close> and take it out, are not among the sources. The
  specification has the catalog mutated by add, update and remove, each of which marks the
  cache dirty. The hooks that are in the sources (\<open>_createStorageDocument\<close>,
  \<open>_findStorageDocument\<close> on a stored document, \<open>update\<close>, \<open>_deleteStorageDocument\<close>)
  each call \<open>coverTypesUpdated()\<close> first; the change to the map follows the semantics of
  \<open>Map.set\<close> (replace in place, or append) and \<open>Map.delete\<close>.
\<close>

definition Map_get :: "string \<Rightarrow> CoverType list \<Rightarrow> CoverType option" where
  "Map_get k m = find (\<lambda>c. ct_id c = k) m"

definition Map_set :: "CoverType \<Rightarrow> CoverType list \<Rightarrow> CoverType list" where
  "Map_set c m =
     (if \<exists>d \<in> set m. ct_id d = ct_id c
      then map (\<lambda>d. if ct_id d = ct_id c then c else d) m
      else m @ [c])"

definition Map_delete :: "string \<Rightarrow> CoverType list \<Rightarrow> CoverType list" where
  "Map_delete k m = filter (\<lambda>c. ct_id c \<noteq> k) m"

definition addCoverType :: "CoverType \<Rightarrow> Catalog \<Rightarrow> Catalog" where
  "addCoverType c s =
     (let s' = coverTypesUpdated s in s'\<lparr>coverObjectsMap := Map_set c (coverObjectsMap s')\<rparr>)"

definition updateCoverType :: "string \<Rightarrow> CoverType \<Rightarrow> Catalog \<Rightarrow> Catalog" where
  "updateCoverType k config s =
     (let s' = coverTypesUpdated s
      in s'\<lparr>coverObjectsMap :=
              map (\<lambda>d. if ct_id d = k then config\<lparr>ct_id := k\<rparr> else d) (coverObjectsMap s')\<rparr>)"

definition removeCoverType :: "string \<Rightarrow> Catalog \<Rightarrow> Catalog" where
  "removeCoverType k s =
     (let s' = coverTypesUpdated s in s'\<lparr>coverObjectsMap := Map_delete k (coverObjectsMap s')\<rparr>)"

text \<open>The catalog states that the mutations and the two reads can produce.\<close>

inductive reachable :: "Catalog \<Rightarrow> bool" where
  reach_init: "reachable initial_catalog"
| reach_add: "reachable s \<Longrightarrow> reachable (addCoverType c s)"
| reach_update: "reachable s \<Longrightarrow> reachable (updateCoverType k config s)"
| reach_remove: "reachable s \<Longrightarrow> reachable (removeCoverType k s)"
| reach_read_ordered: "reachable s \<Longrightarrow> reachable (snd (get_coverTypesOrdered s))"
| reach_read_unordered: "reachable s \<Longrightarrow> reachable (snd (get_coverTypesUnordered s))"

text \<open>
  What the specification asks of the derived lists: together they hold every entry of the
  catalog exactly once, the ordered list holds the entries with a truthy priority, by
  descending priority, and the unordered list holds the others.
\<close>

definition is_partition :: "CoverType list \<Rightarrow> CoverType list \<Rightarrow> CoverType list \<Rightarrow> bool" where
  "is_partition cat ord un \<longleftrightarrow>
     mset ord + mset un = mset cat
     \<and> list_all has_priority ord
     \<and> list_all (\<lambda>c. \<not> has_priority c) un
     \<and> sorted_wrt (\<lambda>a b. priority_num a \<ge> priority_num b) ord"

section \<open>Which cover types apply\<close>

text \<open>
  A JavaScript \<open>Set\<close> keeps insertion order and holds no element twice: a list without
  repetition. Its cardinality is the property \<open>size\<close>. A \<open>Set\<close> has no property
  \<open>length\<close>, so reading \<open>types.length\<close> gives \<open>undefined\<close> whatever the set holds.
\<close>

definition Set_add :: "'a \<Rightarrow> 'a list \<Rightarrow> 'a list" where
  "Set_add x xs = (if x \<in> set xs then xs else xs @ [x])"

definition Set_delete :: "'a \<Rightarrow> 'a list \<Rightarrow> 'a list" where
  "Set_delete x xs = filter (\<lambda>y. y \<noteq> x) xs"

definition Set_has :: "'a \<Rightarrow> 'a list \<Rightarrow> bool" where
  "Set_has x xs \<longleftrightarrow> x \<in> set xs"

definition Set_size :: "'a list \<Rightarrow> nat" where
  "Set_size xs = length xs"

definition Set_length :: "'a list \<Rightarrow> jsval" where
  "Set_length xs = Undefined"

text \<open>
  The percent-cover calculator of the attacking token is outside the sources; it is the
  parameter \<open>calc attacker target includeWalls includeTokens\<close>.
  \<^verbatim>\<open>
  percentCover(attackingToken, targetToken) {
    const { includeWalls, includeTokens } = this.document;
    return attackingToken.tokencover.coverCalculator.percentCover(targetToken, {...}); }
  coverTypeApplies(attackingToken, targetToken, _opts = {}) {
    return this.percentCover(attackingToken, targetToken) >= this.document.percentThreshold; }
  \<close>
\<close>

type_synonym 'tok calculator = "'tok \<Rightarrow> 'tok \<Rightarrow> bool \<Rightarrow> bool \<Rightarrow> rat"

definition percentCover :: "'tok calculator \<Rightarrow> CoverType \<Rightarrow> 'tok \<Rightarrow> 'tok \<Rightarrow> rat" where
  "percentCover calc ct attackingToken targetToken =
     calc attackingToken targetToken (includeWalls ct) (includeTokens ct)"

definition coverTypeApplies :: "'tok calculator \<Rightarrow> CoverType \<Rightarrow> 'tok \<Rightarrow> 'tok \<Rightarrow> bool" where
  "coverTypeApplies calc ct attackingToken targetToken \<longleftrightarrow>
     percentCover calc ct attackingToken targetToken \<ge> percentThreshold ct"

text \<open>
  \<open>coverTypesForToken\<close>. The run records, next to the set \<open>types\<close> (\<open>r_types\<close>), every cover type
  on which \<open>coverTypeApplies\<close> was called, in order (\<open>r_tested\<close>).
  \<^verbatim>\<open>
  const types = new Set();
  for ( const type of this.coverTypesOrdered ) {
    const typeApplies = type.coverTypeApplies(attackingToken, targetToken, opts);
    if ( typeApplies ) { types.add(type); break; } }
  for ( const type of this.coverTypesUnordered ) {
    if ( !type.document.canOverlap && types.length ) continue;
    if ( type.coverTypeApplies(attackingToken, targetToken, opts) ) types.add(type); }
  return types;
  \<close>
\<close>

record run =
  r_types :: "CoverType list"
  r_tested :: "CoverType list"

fun test_ordered :: "(CoverType \<Rightarrow> bool) \<Rightarrow> CoverType list \<Rightarrow> run \<Rightarrow> run" where
  "test_ordered applies [] r = r"
| "test_ordered applies (t # ts) r =
     (let r' = r\<lparr>r_tested := r_tested r @ [t]\<rparr>
      in if applies t then r'\<lparr>r_types := Set_add t (r_types r')\<rparr>
         else test_ordered applies ts r')"

fun test_unordered :: "(CoverType \<Rightarrow> bool) \<Rightarrow> CoverType list \<Rightarrow> run \<Rightarrow> run" where
  "test_unordered applies [] r = r"
| "test_unordered applies (t # ts) r =
     (if \<not> canOverlap t \<and> truthy (Set_length (r_types r)) then test_unordered applies ts r
      else (let r' = r\<lparr>r_tested := r_tested r @ [t]\<rparr>
            in test_unordered applies ts
                 (if applies t then r'\<lparr>r_types := Set_add t (r_types r')\<rparr> else r')))"

definition coverTypesForToken_run ::
  "'tok calculator \<Rightarrow> Catalog \<Rightarrow> 'tok \<Rightarrow> 'tok \<Rightarrow> run \<times> Catalog" where
  "coverTypesForToken_run calc s attackingToken targetToken =
     (let applies = (\<lambda>ct. coverTypeApplies calc ct attackingToken targetToken);
          (ord, s1) = get_coverTypesOrdered s;
          r1 = test_ordered applies ord \<lparr>r_types = [], r_tested = []\<rparr>;
          (un, s2) = get_coverTypesUnordered s1;
          r2 = test_unordered applies un r1
      in (r2, s2))"

definition coverTypesForToken ::
  "'tok calculator \<Rightarrow> Catalog \<Rightarrow> 'tok \<Rightarrow> 'tok \<Rightarrow> CoverType list" where
  "coverTypesForToken calc s attackingToken targetToken =
     r_types (fst (coverTypesForToken_run calc s attackingToken targetToken))"

text \<open>
  What the two derived arrays hold after a rebuild, as functions of the catalog, and the
  invariant of the cache: unless the flag is set, the arrays are the rebuilt ones.
\<close>

definition derived_ordered :: "CoverType list \<Rightarrow> CoverType list" where
  "derived_ordered cat = sort_key (\<lambda>c. - priority_num c) (filter has_priority cat)"

definition derived_unordered :: "CoverType list \<Rightarrow> CoverType list" where
  "derived_unordered cat = filter (\<lambda>c. \<not> has_priority c) cat"

definition cache_ok :: "Catalog \<Rightarrow> bool" where
  "cache_ok s \<longleftrightarrow>
     coverTypesModified s
     \<or> (coverTypesOrdered s = derived_ordered (coverObjectsMap s)
        \<and> coverTypesUnordered s = derived_unordered (coverObjectsMap s))"

section \<open>The Pathfinder 2e specialisation\<close>

text \<open>
  \<^verbatim>\<open>
  const ACTOR_SIZES = { tiny: 1, sm: 2, med: 3, lg: 4, huge: 5, grg: 6 };
  Object.entries(ACTOR_SIZES).forEach(([key, value]) => ACTOR_SIZES[value] = key);
  \<close>
  After the second line the object also maps \<open>"1"\<close> to \<open>"tiny"\<close>, ..., \<open>"6"\<close> to
  \<open>"grg"\<close>. It is a plain object, so the property names it inherits from
  \<open>Object.prototype\<close> read as functions or objects; any other key reads \<open>undefined\<close>.
\<close>

definition Object_prototype_keys :: "string list" where
  "Object_prototype_keys =
     [''constructor'', ''toString'', ''toLocaleString'', ''valueOf'', ''hasOwnProperty'',
      ''isPrototypeOf'', ''propertyIsEnumerable'', ''__proto__'', ''__defineGetter__'',
      ''__defineSetter__'', ''__lookupGetter__'', ''__lookupSetter__'']"

definition ACTOR_SIZES :: "string \<Rightarrow> jsval" where
  "ACTOR_SIZES key =
     (if key = ''tiny'' then Num 1 else if key = ''sm'' then Num 2
      else if key = ''med'' then Num 3 else if key = ''lg'' then Num 4
      else if key = ''huge'' then Num 5 else if key = ''grg'' then Num 6
      else if key = ''1'' then Str ''tiny'' else if key = ''2'' then Str ''sm''
      else if key = ''3'' then Str ''med'' else if key = ''4'' then Str ''lg''
      else if key = ''5'' then Str ''huge'' else if key = ''6'' then Str ''grg''
      else if key \<in> set Object_prototype_keys then Obj
      else Undefined)"

text \<open>\<open>ACTOR_SIZES[label] ?? ACTOR_SIZES.med\<close>: only \<open>undefined\<close> takes the default.\<close>

definition size_of :: "string \<Rightarrow> jsval" where
  "size_of label = (case ACTOR_SIZES label of Undefined \<Rightarrow> ACTOR_SIZES ''med'' | v \<Rightarrow> v)"

text \<open>
  \<open>CoverTypePF2E.coverTypesForToken\<close>. The size label of a token
  (\<open>token.system.traits.size.value\<close>) and the tokens that block for an attacker
  (\<open>attackingToken.tokencover.coverCalculator.calc.blockingObjects.tokens\<close>) belong to
  the host; they are the parameters \<open>size_value\<close> and \<open>blockingTokens\<close>. The two
  catalog keys are the template literals of the source, which contain no substitution.
  \<^verbatim>\<open>
  const types = super.coverTypesForToken(attackingToken, targetToken, opts);
  if ( !types.size ) return types;
  const standardCover = this.coverObjectsMap.get(`[MODULE_ID].pf2e.standard`);
  const lesserCover = this.coverObjectsMap.get(`[MODULE_ID].pf2e.lesser`);
  if ( !standardCover || !lesserCover || !types.has(lesserCover) ) return types;
  const targetSize = ACTOR_SIZES[targetToken.system.traits.size.value] ?? ACTOR_SIZES.med;
  const attackerSize = ACTOR_SIZES[attackingToken.system.traits.size.value] ?? ACTOR_SIZES.med;
  const upgradeSize = Math.max(targetSize, attackerSize) + 1;
  for ( const token of ...blockingObjects.tokens ) {
    const blockingTokenSize = ACTOR_SIZES[token.system.traits.size.value] ?? ACTOR_SIZES.med;
    if ( blockingTokenSize > upgradeSize ) {
      types.delete(lesserCover); types.add(standardCover); break; } }
  return types;
  \<close>
\<close>

definition standard_key :: string where
  "standard_key = ''[MODULE_ID].pf2e.standard''"

definition lesser_key :: string where
  "lesser_key = ''[MODULE_ID].pf2e.lesser''"

fun upgrade_loop ::
  "('tok \<Rightarrow> string) \<Rightarrow> jsval \<Rightarrow> CoverType \<Rightarrow> CoverType \<Rightarrow> 'tok list \<Rightarrow> CoverType list
   \<Rightarrow> CoverType list" where
  "upgrade_loop size_value upgradeSize lesserCover standardCover [] types = types"
| "upgrade_loop size_value upgradeSize lesserCover standardCover (token # rest) types =
     (let blockingTokenSize = size_of (size_value token)
      in if js_gt blockingTokenSize upgradeSize
         then Set_add standardCover (Set_delete lesserCover types)
         else upgrade_loop size_value upgradeSize lesserCover standardCover rest types)"

definition PF2E_coverTypesForToken ::
  "'tok calculator \<Rightarrow> ('tok \<Rightarrow> string) \<Rightarrow> ('tok \<Rightarrow> 'tok list) \<Rightarrow> Catalog \<Rightarrow> 'tok \<Rightarrow> 'tok
   \<Rightarrow> CoverType list" where
  "PF2E_coverTypesForToken calc size_value blockingTokens s attackingToken targetToken =
     (let types = coverTypesForToken calc s attackingToken targetToken
      in if Set_size types = 0 then types
         else (case (Map_get standard_key (coverObjectsMap s),
                     Map_get lesser_key (coverObjectsMap s)) of
                 (Some standardCover, Some lesserCover) \<Rightarrow>
                   if \<not> Set_has lesserCover types then types
                   else (let targetSize = size_of (size_value targetToken);
                             attackerSize = size_of (size_value attackingToken);
                             upgradeSize = js_plus1 (Math_max targetSize attackerSize)
                         in upgrade_loop size_value upgradeSize lesserCover standardCover
                              (blockingTokens attackingToken) types)
               | _ \<Rightarrow> types))"

section \<open>Cover against a group of attackers\<close>

text \<open>
  \<open>minimumCoverFromAttackers\<close>. The object getters \<open>ct.priority\<close>, \<open>ct.icon\<close> and
  \<open>ct.name\<close> belong to \<open>AbstractCoverObject\<close>; the record \<open>CoverType\<close> is the object
  with its document, so they read the document's fields.

  Modelled from the spec: \<open>targetToken.tokencover.coverTypesFromAttacker(attackingToken)\<close>
  is not among the sources. The specification has the group function combine the
  per-attacker results of \<open>coverTypesForToken\<close>; the call is modelled as
  \<open>coverTypesForToken\<close> for that attacker and the target.
  \<^verbatim>\<open>
  if ( !attackingTokens.length ) return NULL_SET;
  let minCoverType; let otherCoverTypes;
  for ( const attackingToken of attackingTokens ) {
    const coverTypes = targetToken.tokencover.coverTypesFromAttacker(attackingToken);
    const otherTypes = new Set();
    coverTypes.forEach(ct => {
      if ( !ct.priority ) otherTypes.add(ct);
      else if ( (typeof minCoverType === "undefined")
                || (minCoverType.priority > ct.priority) ) minCoverType = ct; })
    if ( !otherCoverTypes ) otherCoverTypes = otherTypes;
    else otherCoverTypes = otherCoverTypes.intersection(otherTypes); }
  minCoverType = new Set(minCoverType ? [minCoverType] : []);
  otherCoverTypes ||= Set.NULL_SET;
  return minCoverType.union(otherCoverTypes);
  \<close>
  \<open>Set.NULL_SET\<close> is not defined anywhere, so the last-but-one line would leave
  \<open>undefined\<close> and the union would throw; the result is an \<open>option\<close> with \<open>None\<close>
  for that exception.
\<close>

definition Set_intersection :: "'a list \<Rightarrow> 'a list \<Rightarrow> 'a list" where
  "Set_intersection xs ys = filter (\<lambda>x. x \<in> set ys) xs"

definition Set_union :: "'a list \<Rightarrow> 'a list \<Rightarrow> 'a list" where
  "Set_union xs ys = fold Set_add ys xs"

definition coverTypesFromAttacker ::
  "'tok calculator \<Rightarrow> Catalog \<Rightarrow> 'tok \<Rightarrow> 'tok \<Rightarrow> CoverType list" where
  "coverTypesFromAttacker calc s targetToken attackingToken =
     coverTypesForToken calc s attackingToken targetToken"

fun forEach_coverType ::
  "CoverType list \<Rightarrow> CoverType option \<times> CoverType list \<Rightarrow> CoverType option \<times> CoverType list"
where
  "forEach_coverType [] st = st"
| "forEach_coverType (ct # cts) (minCoverType, otherTypes) =
     (if \<not> has_priority ct then forEach_coverType cts (minCoverType, Set_add ct otherTypes)
      else if (case minCoverType of None \<Rightarrow> True
               | Some m \<Rightarrow> priority_num m > priority_num ct)
      then forEach_coverType cts (Some ct, otherTypes)
      else forEach_coverType cts (minCoverType, otherTypes))"

fun attackers_loop ::
  "('tok \<Rightarrow> CoverType list) \<Rightarrow> 'tok list \<Rightarrow> CoverType option \<times> CoverType list option
   \<Rightarrow> CoverType option \<times> CoverType list option" where
  "attackers_loop fromAttacker [] st = st"
| "attackers_loop fromAttacker (attackingToken # rest) (minCoverType, otherCoverTypes) =
     (let coverTypes = fromAttacker attackingToken;
          (minCoverType', otherTypes) = forEach_coverType coverTypes (minCoverType, [])
      in attackers_loop fromAttacker rest
           (minCoverType',
            (case otherCoverTypes of None \<Rightarrow> Some otherTypes
             | Some other \<Rightarrow> Some (Set_intersection other otherTypes))))"

definition minimumCoverFromAttackers ::
  "'tok calculator \<Rightarrow> Catalog \<Rightarrow> 'tok \<Rightarrow> 'tok list \<Rightarrow> CoverType list option" where
  "minimumCoverFromAttackers calc s targetToken attackingTokens =
     (if length attackingTokens = 0 then Some []
      else (let (minCoverType, otherCoverTypes) =
                  attackers_loop (coverTypesFromAttacker calc s targetToken) attackingTokens
                    (None, None);
                minSet = (case minCoverType of None \<Rightarrow> [] | Some m \<Rightarrow> [m])
            in (case otherCoverTypes of None \<Rightarrow> None
                | Some other \<Rightarrow> Some (Set_union minSet other))))"

section \<open>Cover icons on a token\<close>

text \<open>
  The token's \<open>document.effects\<close> is an array of icon paths.

  Modelled from the spec: \<open>findSpliceAll\<close> of \<open>util.js\<close> is not among the sources; by
  its use it removes from the array, in place, every element that satisfies the predicate.
  \<^verbatim>\<open>
  removeFromToken(token) {
    const change = token.document.effects.some(e => e === this.icon);
    if ( change ) findSpliceAll(token.document.effects, e => e === this.icon);
    return change; }
  addToToken(token) {
    const icon = this.document.icon;
    if ( token.document.effects.some(e => e === icon) ) return false;
    if ( this.document.canOverlap ) { token.document.effects.push(icon); return true; }
    const tokenEffectIcons = new Set(token.document.effects);
    const otherCoverTypes = CoverType.coverObjectsMap.values()
      .filter(ct => ct.icon !== icon && !ct.document.canOverlap);
    for ( const otherCoverType of otherCoverTypes ) {
      if ( tokenEffectIcons.has(otherCoverType.icon) ) otherCoverType.removeFromToken(token); }
    token.document.effects.push(icon);
    return true; }
  \<close>
\<close>

definition findSpliceAll :: "'a list \<Rightarrow> ('a \<Rightarrow> bool) \<Rightarrow> 'a list" where
  "findSpliceAll arr pred = filter (\<lambda>e. \<not> pred e) arr"

definition Set_new :: "'a list \<Rightarrow> 'a list" where
  "Set_new xs = fold Set_add xs []"

definition removeFromToken :: "CoverType \<Rightarrow> string list \<Rightarrow> string list \<times> bool" where
  "removeFromToken ct effects =
     (let change = list_ex (\<lambda>e. e = icon ct) effects
      in (if change then findSpliceAll effects (\<lambda>e. e = icon ct) else effects, change))"

definition addToToken :: "CoverType list \<Rightarrow> CoverType \<Rightarrow> string list \<Rightarrow> string list \<times> bool" where
  "addToToken cat ct effects =
     (if list_ex (\<lambda>e. e = icon ct) effects then (effects, False)
      else if canOverlap ct then (effects @ [icon ct], True)
      else (let tokenEffectIcons = Set_new effects;
                otherCoverTypes = filter (\<lambda>c. icon c \<noteq> icon ct \<and> \<not> canOverlap c) cat;
                effects' = fold (\<lambda>otherCoverType e.
                                   if Set_has (icon otherCoverType) tokenEffectIcons
                                   then fst (removeFromToken otherCoverType e) else e)
                             otherCoverTypes effects
            in (effects' @ [icon ct], True)))"

text \<open>
  \<open>replaceCoverTypes\<close> returns the token's new \<open>effects\<close> and the value of the
  \<open>return\<close> statement, which is \<open>res || changed\<close> with \<open>changed\<close> a number.
  \<^verbatim>\<open>
  if ( !(coverTypes instanceof Set) ) coverTypes = new Set(coverTypes);
  if ( !coverTypes.size ) {
    if ( !token.document.effects.length ) return false;
    token.document.effects.length = 0;
    return true; }
  const tokenEffectIcons = new Set(token.document.effects);
  const toKeep = coverTypes.map(ct => ct.icon);
  const toRemove = tokenEffectIcons.difference(toKeep);
  const changed = toRemove.size
  if ( changed ) findSpliceAll(token.document.effects, e => toRemove.has(e));
  const res = coverTypes.values().reduce((acc, ct) => {
    const out = ct.addToToken(token);
    return acc || out; }, false);
  return res || changed;
  \<close>
\<close>

definition Set_difference :: "'a list \<Rightarrow> 'a list \<Rightarrow> 'a list" where
  "Set_difference xs ys = filter (\<lambda>x. x \<notin> set ys) xs"

definition Set_map :: "('a \<Rightarrow> 'b) \<Rightarrow> 'a list \<Rightarrow> 'b list" where
  "Set_map f xs = Set_new (map f xs)"

definition replaceCoverTypes ::
  "CoverType list \<Rightarrow> string list \<Rightarrow> CoverType list \<Rightarrow> string list \<times> jsval" where
  "replaceCoverTypes cat effects coverTypes0 =
     (let coverTypes = Set_new coverTypes0
      in if Set_size coverTypes = 0
         then (if length effects = 0 then (effects, Bool False) else ([], Bool True))
         else (let tokenEffectIcons = Set_new effects;
                   toKeep = Set_map icon coverTypes;
                   toRemove = Set_difference tokenEffectIcons toKeep;
                   changed = Set_size toRemove;
                   effects1 = (if changed \<noteq> 0
                               then findSpliceAll effects (\<lambda>e. Set_has e toRemove)
                               else effects);
                   (effects2, res) =
                     fold (\<lambda>ct (e, acc). let (e', out) = addToToken cat ct e in (e', acc \<or> out))
                       coverTypes (effects1, False)
               in (effects2, if res then Bool True else Num (of_nat changed))))"

section \<open>Example catalog\<close>

text \<open>
  The catalog of the specification's example (A: priority 10, threshold 0.75; B: priority
  5, threshold 0.5; C: no priority, threshold 0.25, may overlap), and a fourth category
  D without priority that may not overlap. Tokens are named by strings; the calculator reports an
  occlusion of 0.8 for every pair.
\<close>

definition ctA :: CoverType where
  "ctA = \<lparr>ct_id = ''A'', percentThreshold = 3/4, priority = Some 10, canOverlap = False,
          icon = ''icons/a.svg'', includeWalls = True, includeTokens = False\<rparr>"

definition ctB :: CoverType where
  "ctB = \<lparr>ct_id = ''B'', percentThreshold = 1/2, priority = Some 5, canOverlap = False,
          icon = ''icons/b.svg'', includeWalls = True, includeTokens = False\<rparr>"

definition ctC :: CoverType where
  "ctC = \<lparr>ct_id = ''C'', percentThreshold = 1/4, priority = None, canOverlap = True,
          icon = ''icons/c.svg'', includeWalls = False, includeTokens = True\<rparr>"

definition ctD :: CoverType where
  "ctD = \<lparr>ct_id = ''D'', percentThreshold = 1/4, priority = None, canOverlap = False,
          icon = ''icons/d.svg'', includeWalls = False, includeTokens = True\<rparr>"

definition example_catalog :: Catalog where
  "example_catalog =
     addCoverType ctD (addCoverType ctA (addCoverType ctC (addCoverType ctB initial_catalog)))"

definition calc_80 :: "string calculator" where
  "calc_80 attacker target walls tokens = 4/5"

text \<open>
  A Pathfinder catalog with the two categories the specialisation looks up, stored under
  the keys it uses. The calculator reports an occlusion of 0.3, so that lesser cover
  applies and standard cover does not. The attacker is medium, the target carries a label
  the table does not know, and a huge creature stands in between.
\<close>

definition pf_lesser :: CoverType where
  "pf_lesser = \<lparr>ct_id = lesser_key, percentThreshold = 1/4, priority = Some 1,
                canOverlap = False, icon = ''icons/lesser.svg'', includeWalls = False,
                includeTokens = True\<rparr>"

definition pf_standard :: CoverType where
  "pf_standard = \<lparr>ct_id = standard_key, percentThreshold = 1/2, priority = Some 2,
                  canOverlap = False, icon = ''icons/standard.svg'', includeWalls = True,
                  includeTokens = True\<rparr>"

definition pf2e_catalog :: Catalog where
  "pf2e_catalog = addCoverType pf_standard (addCoverType pf_lesser initial_catalog)"

definition calc_30 :: "string calculator" where
  "calc_30 attacker target walls tokens = 3/10"

definition example_size :: "string \<Rightarrow> string" where
  "example_size token =
     (if token = ''ogre'' then ''huge'' else if token = ''attacker'' then ''med''
      else ''unknown'')"

definition example_blockers :: "string \<Rightarrow> string list" where
  "example_blockers attacker = [''goblin'', ''ogre'']"

text \<open>
  The same two categories under the ids the module's data uses for its Pathfinder
  categories (an effect item of the repository lists the cover type
  \<open>tokencover.pf2e.greater\<close>).
\<close>

definition tc_lesser :: CoverType where
  "tc_lesser = pf_lesser\<lparr>ct_id := ''tokencover.pf2e.lesser''\<rparr>"

definition tc_standard :: CoverType where
  "tc_standard = pf_standard\<lparr>ct_id := ''tokencover.pf2e.standard''\<rparr>"

definition tokencover_catalog :: Catalog where
  "tokencover_catalog = addCoverType tc_standard (addCoverType tc_lesser initial_catalog)"

section \<open>Terrain walls\<close>

text \<open>
  A wall object has two ground endpoints \<open>A\<close>, \<open>B\<close> and a top and a bottom
  elevation, either of which may be infinite (\<open>None\<close>). \<open>WallPoints3d\<close> holds the
  object, its four corner points and the view matrix \<open>M\<close> of its base class.
  \<^verbatim>\<open>
  constructor(object) {
    const { A, B, topZ, bottomZ } = object;
    const maxR = canvas.dimensions.maxR;
    const top = isFinite(topZ) ? topZ : maxR;
    const bottom = isFinite(bottomZ) ? bottomZ : -maxR;
    points[0] = new Point3d(A.x, A.y, top);     points[1] = new Point3d(B.x, B.y, top);
    points[2] = new Point3d(B.x, B.y, bottom);  points[3] = new Point3d(A.x, A.y, bottom);
    super(object, points); }
  \<close>
\<close>

datatype Point3d = Point3d rat rat rat

record WallObject =
  wall_A :: Point
  wall_B :: Point
  topZ :: "rat option"
  bottomZ :: "rat option"

record 'm WallPoints3d =
  wall_object :: WallObject
  wall_points :: "Point3d list"
  wall_M :: "'m option"

record ClipperPaths =
  paths :: "Point list list"

text \<open>
  What the wall code takes from outside the sources: \<open>canvas.dimensions.maxR\<close>,
  \<open>foundry.utils.orient2dFast\<close> and \<open>lineLineIntersection\<close> (which returns nothing
  when it finds no intersection), \<open>perspectiveTransform\<close> of \<open>PlanePoints3d\<close>, and the
  operations \<open>fromPolygons\<close>, \<open>intersectPaths\<close>, \<open>combine\<close> and \<open>clean\<close> of
  \<open>ClipperPaths\<close>. They are the fields of one parameter.
\<close>

record 'm geometry =
  maxR :: rat
  orient2dFast :: "Point \<Rightarrow> Point \<Rightarrow> Point \<Rightarrow> rat"
  lineLineIntersection :: "Point \<Rightarrow> Point \<Rightarrow> Point \<Rightarrow> Point \<Rightarrow> Point option"
  perspectiveTransform :: "'m WallPoints3d \<Rightarrow> Point list"
  fromPolygons :: "Point list list \<Rightarrow> ClipperPaths"
  intersectPaths :: "ClipperPaths \<Rightarrow> ClipperPaths \<Rightarrow> ClipperPaths"
  cp_combine :: "ClipperPaths \<Rightarrow> ClipperPaths"
  cp_clean :: "ClipperPaths \<Rightarrow> ClipperPaths"

definition WallPoints3d_new :: "rat \<Rightarrow> WallObject \<Rightarrow> 'm WallPoints3d" where
  "WallPoints3d_new maxR_value obj =
     (let top = (case topZ obj of Some z \<Rightarrow> z | None \<Rightarrow> maxR_value);
          bottom = (case bottomZ obj of Some z \<Rightarrow> z | None \<Rightarrow> - maxR_value)
      in (case (wall_A obj, wall_B obj) of
            (Point ax ay, Point bx by) \<Rightarrow>
              \<lparr>wall_object = obj,
               wall_points = [Point3d ax ay top, Point3d bx by top,
                              Point3d bx by bottom, Point3d ax ay bottom],
               wall_M = None\<rparr>))"

text \<open>\<open>w.points[i].x = ix.x; w.points[i].y = ix.y\<close> and \<open>w.setViewMatrix(M)\<close>.\<close>

fun move_xy :: "Point \<Rightarrow> Point3d \<Rightarrow> Point3d" where
  "move_xy (Point ix iy) (Point3d px py pz) = Point3d ix iy pz"

definition set_point_xy :: "nat \<Rightarrow> Point \<Rightarrow> 'm WallPoints3d \<Rightarrow> 'm WallPoints3d" where
  "set_point_xy i ix w = w\<lparr>wall_points := (wall_points w)[i := move_xy ix (wall_points w ! i)]\<rparr>"

definition setViewMatrix :: "'m option \<Rightarrow> 'm WallPoints3d \<Rightarrow> 'm WallPoints3d" where
  "setViewMatrix m w = w\<lparr>wall_M := m\<rparr>"

text \<open>
  \<open>function ccw(a, b, c) { return Math.sign(foundry.utils.orient2dFast(a, b, c)); }\<close>.
  The viewer location is a \<open>Point3d\<close> of which only \<open>x\<close> and \<open>y\<close> are read.
\<close>

fun to2d :: "Point3d \<Rightarrow> Point" where
  "to2d (Point3d px py pz) = Point px py"

definition ccw :: "'m geometry \<Rightarrow> Point \<Rightarrow> Point \<Rightarrow> Point \<Rightarrow> rat" where
  "ccw env a b c = sgn (orient2dFast env a b c)"

text \<open>
  Modelled from the spec: \<open>ClipperPaths\<close> is not among the sources. A new
  \<open>ClipperPaths\<close> holds no path, and \<open>add\<close> accumulates the paths of its argument
  into the receiver. The source adds a result only if it has a path.
\<close>

definition ClipperPaths_new :: ClipperPaths where
  "ClipperPaths_new = \<lparr>paths = []\<rparr>"

definition ClipperPaths_add :: "ClipperPaths \<Rightarrow> ClipperPaths \<Rightarrow> ClipperPaths" where
  "ClipperPaths_add combined other = combined\<lparr>paths := paths combined @ paths other\<rparr>"

definition add_if_paths :: "ClipperPaths \<Rightarrow> ClipperPaths \<Rightarrow> ClipperPaths" where
  "add_if_paths cp combined =
     (if length (paths cp) \<noteq> 0 then ClipperPaths_add combined cp else combined)"

text \<open>
  \<open>handleTerrainWallsCross\<close> returns its result (\<open>undefined\<close> is \<open>None\<close>) and the
  warnings it wrote to the console.
  \<^verbatim>\<open>
  const ix = foundry.utils.lineLineIntersection(A, B, C, D);
  if ( !ix ) {
    console.warn("combineTerrainWalls: walls cross but intersection not found.");
    return undefined; }
  const wiA = new WallPoints3d(wi.object);  ... wiB, wjC, wjD likewise
  wiA.points[1] and [2], wjC.points[1] and [2]: x, y set to ix
  wiB.points[0] and [3], wjD.points[0] and [3]: x, y set to ix
  if ( ccwABV === -1 ) { wjFront = wjD; wjBack = wjC;
    if ( ccwCDV === -1 ) { wiFront = wiA; wiBack = wiB; } else { wiFront = wiB; wiBack = wiA; }
  } else { wjFront = wjC; wjBack = wjD;
    if ( ccwCDV === -1 ) { wiFront = wiA; wiBack = wiB; } else { wiFront = wiB; wiBack = wiA; } }
  wiFront.setViewMatrix(wi.M); wiBack.setViewMatrix(wi.M);
  wjFront.setViewMatrix(wj.M); wjBack.setViewMatrix(wj.M);
  const cpWiFront = ClipperPaths.fromPolygons([new PIXI.Polygon(wiFront.perspectiveTransform())]);
  ... cpWiBack, cpWjFront, cpWjBack likewise
  const cpWiIntersect = cpWjFront.intersectPaths(cpWiBack);
  const cpWjIntersect = cpWiFront.intersectPaths(cpWjBack);
  return { wiPath: cpWiIntersect, wjPath: cpWjIntersect };
  \<close>
\<close>

definition cross_warning :: string where
  "cross_warning = ''combineTerrainWalls: walls cross but intersection not found.''"

definition silhouette :: "'m geometry \<Rightarrow> 'm WallPoints3d \<Rightarrow> ClipperPaths" where
  "silhouette env w = fromPolygons env [perspectiveTransform env w]"

definition handleTerrainWallsCross ::
  "'m geometry \<Rightarrow> 'm WallPoints3d \<Rightarrow> 'm WallPoints3d \<Rightarrow> rat \<Rightarrow> rat
   \<Rightarrow> (ClipperPaths \<times> ClipperPaths) option \<times> string list" where
  "handleTerrainWallsCross env wi wj ccwABV ccwCDV =
     (let a = wall_A (wall_object wi); b = wall_B (wall_object wi);
          c = wall_A (wall_object wj); d = wall_B (wall_object wj)
      in case lineLineIntersection env a b c d of
           None \<Rightarrow> (None, [cross_warning])
         | Some ix \<Rightarrow>
             (let wiA = set_point_xy 2 ix (set_point_xy 1 ix (WallPoints3d_new (maxR env) (wall_object wi)));
                  wiB = set_point_xy 3 ix (set_point_xy 0 ix (WallPoints3d_new (maxR env) (wall_object wi)));
                  wjC = set_point_xy 2 ix (set_point_xy 1 ix (WallPoints3d_new (maxR env) (wall_object wj)));
                  wjD = set_point_xy 3 ix (set_point_xy 0 ix (WallPoints3d_new (maxR env) (wall_object wj)));
                  (wjFront, wjBack) = (if ccwABV = - 1 then (wjD, wjC) else (wjC, wjD));
                  (wiFront, wiBack) = (if ccwCDV = - 1 then (wiA, wiB) else (wiB, wiA));
                  cpWiFront = silhouette env (setViewMatrix (wall_M wi) wiFront);
                  cpWiBack = silhouette env (setViewMatrix (wall_M wi) wiBack);
                  cpWjFront = silhouette env (setViewMatrix (wall_M wj) wjFront);
                  cpWjBack = silhouette env (setViewMatrix (wall_M wj) wjBack);
                  cpWiIntersect = intersectPaths env cpWjFront cpWiBack;
                  cpWjIntersect = intersectPaths env cpWiFront cpWjBack
              in (Some (cpWiIntersect, cpWjIntersect), [])))"

text \<open>
  The body of the inner loop of \<open>combineTerrainWalls\<close> for the walls \<open>wi\<close> (segment
  AB, with \<open>ccwABV\<close> already known to be non-zero) and \<open>wj\<close> (segment CD). The state is
  the accumulated \<open>combined\<close> paths and what was written to the console. \<open>front_back\<close> is the block that
  assigns \<open>wFront\<close> and \<open>wBack\<close>; it leaves them undefined (\<open>None\<close>) when the walls
  strictly cross.
  \<^verbatim>\<open>
  const ccwCDV = ccw(C, D, viewerLoc);
  if ( !ccwCDV ) continue;
  const ccwABC = ccw(A, B, C);  const ccwABD = ccw(A, B, D);
  if ( !(ccwABC || ccwABD) ) continue;
  const ccwCDA = ccw(C, D, A);  const ccwCDB = ccw(C, D, B);
  let wFront; let wBack;
  if ( ccwABC === ccwABD || !ccwABD || !ccwABC ) {
    const endpointCCW = ccwABC === 0 ? ccwABD : ccwABC;
    if ( endpointCCW === ccwABV ) { wFront = wj; wBack = wi; } else { wFront = wi; wBack = wj; }
  } else if ( ccwCDA === ccwCDB || !ccwCDA || !ccwCDB ) {
    const endpointCCW = ccwCDA === 0 ? ccwCDB : ccwCDA;
    if ( endpointCCW === ccwCDV ) { wFront = wi; wBack = wj; } else { wFront = wj; wBack = wi; } }
  if ( wFront ) {
    const cpFront = ClipperPaths.fromPolygons([new PIXI.Polygon(wFront.perspectiveTransform())]);
    const cpBack = ClipperPaths.fromPolygons([new PIXI.Polygon(wBack.perspectiveTransform())]);
    const cpIntersect = cpFront.intersectPaths(cpBack);
    if ( cpIntersect.paths.length ) combined.add(cpIntersect);
    continue; }
  const res = handleTerrainWallsCross(wi, wj, ccwABV, ccwCDV);
  if ( !res ) continue;
  if ( res.wiPath.paths.length ) combined.add(res.wiPath);
  if ( res.wjPath.paths.length ) combined.add(res.wjPath);
  \<close>
\<close>

definition front_back ::
  "'m geometry \<Rightarrow> Point \<Rightarrow> 'm WallPoints3d \<Rightarrow> rat \<Rightarrow> 'm WallPoints3d \<Rightarrow> rat
   \<Rightarrow> ('m WallPoints3d \<times> 'm WallPoints3d) option" where
  "front_back env v wi ccwABV wj ccwCDV =
     (let a = wall_A (wall_object wi); b = wall_B (wall_object wi);
          c = wall_A (wall_object wj); d = wall_B (wall_object wj);
          ccwABC = ccw env a b c; ccwABD = ccw env a b d;
          ccwCDA = ccw env c d a; ccwCDB = ccw env c d b
      in if ccwABC = ccwABD \<or> ccwABD = 0 \<or> ccwABC = 0
         then (let endpointCCW = (if ccwABC = 0 then ccwABD else ccwABC)
               in if endpointCCW = ccwABV then Some (wj, wi) else Some (wi, wj))
         else if ccwCDA = ccwCDB \<or> ccwCDA = 0 \<or> ccwCDB = 0
         then (let endpointCCW = (if ccwCDA = 0 then ccwCDB else ccwCDA)
               in if endpointCCW = ccwCDV then Some (wi, wj) else Some (wj, wi))
         else None)"

definition pair_step ::
  "'m geometry \<Rightarrow> Point \<Rightarrow> 'm WallPoints3d \<Rightarrow> rat \<Rightarrow> 'm WallPoints3d
   \<Rightarrow> ClipperPaths \<times> string list \<Rightarrow> ClipperPaths \<times> string list" where
  "pair_step env v wi ccwABV wj st =
     (case st of (combined, console) \<Rightarrow>
      (let a = wall_A (wall_object wi); b = wall_B (wall_object wi);
           c = wall_A (wall_object wj); d = wall_B (wall_object wj);
           ccwCDV = ccw env c d v
       in if ccwCDV = 0 then (combined, console)
          else if \<not> (ccw env a b c \<noteq> 0 \<or> ccw env a b d \<noteq> 0) then (combined, console)
          else (case front_back env v wi ccwABV wj ccwCDV of
                  Some (wFront, wBack) \<Rightarrow>
                    (let cpFront = silhouette env wFront;
                         cpBack = silhouette env wBack;
                         cpIntersect = intersectPaths env cpFront cpBack
                     in (add_if_paths cpIntersect combined, console))
                | None \<Rightarrow>
                    (case handleTerrainWallsCross env wi wj ccwABV ccwCDV of
                       (None, warnings) \<Rightarrow> (combined, console @ warnings)
                     | (Some (wiPath, wjPath), warnings) \<Rightarrow>
                         (add_if_paths wjPath (add_if_paths wiPath combined),
                          console @ warnings)))))"

text \<open>
  The two loops. The source runs \<open>i\<close> over \<open>0 .. nWalls - 2\<close> and \<open>j\<close> over
  \<open>i + 1 .. nWalls - 1\<close>: every wall is paired with each wall after it. The recursion
  visits the same pairs in the same order; for the last wall the inner list is empty.
  \<^verbatim>\<open>
  walls = [...walls];
  const combined = new ClipperPaths();
  for ( let i = 0; i < iLn; i += 1 ) {
    const ccwABV = ccw(A, B, viewerLoc);
    if ( !ccwABV ) continue;
    for ( let j = i + 1; j < nWalls; j += 1 ) { ... } }
  if ( !combined.paths.length ) return null;
  const finalPath = combined.combine();
  finalPath.clean();
  return finalPath;
  \<close>
\<close>

fun inner_loop ::
  "'m geometry \<Rightarrow> Point \<Rightarrow> 'm WallPoints3d \<Rightarrow> rat \<Rightarrow> 'm WallPoints3d list
   \<Rightarrow> ClipperPaths \<times> string list \<Rightarrow> ClipperPaths \<times> string list" where
  "inner_loop env v wi ccwABV [] st = st"
| "inner_loop env v wi ccwABV (wj # rest) st =
     inner_loop env v wi ccwABV rest (pair_step env v wi ccwABV wj st)"

fun outer_loop ::
  "'m geometry \<Rightarrow> Point \<Rightarrow> 'm WallPoints3d list \<Rightarrow> ClipperPaths \<times> string list
   \<Rightarrow> ClipperPaths \<times> string list" where
  "outer_loop env v [] st = st"
| "outer_loop env v (wi # rest) st =
     (let ccwABV = ccw env (wall_A (wall_object wi)) (wall_B (wall_object wi)) v
      in if ccwABV = 0 then outer_loop env v rest st
         else outer_loop env v rest (inner_loop env v wi ccwABV rest st))"

definition combineTerrainWalls ::
  "'m geometry \<Rightarrow> 'm WallPoints3d list \<Rightarrow> Point3d \<Rightarrow> ClipperPaths option \<times> string list" where
  "combineTerrainWalls env walls viewerLoc =
     (case outer_loop env (to2d viewerLoc) walls (ClipperPaths_new, []) of
        (combined, console) \<Rightarrow>
          (if length (paths combined) = 0 then None
           else Some (cp_clean env (cp_combine env combined)), console))"

text \<open>
  The paths one pair of walls adds to the accumulator, and the two ways in which the
  ground segments of a pair fail to cross strictly: the classification of the source.
\<close>

definition pair_contribution ::
  "'m geometry \<Rightarrow> Point \<Rightarrow> 'm WallPoints3d \<Rightarrow> 'm WallPoints3d \<Rightarrow> Point list list" where
  "pair_contribution env v wi wj =
     paths (fst (pair_step env v wi
                   (ccw env (wall_A (wall_object wi)) (wall_B (wall_object wi)) v) wj
                   (ClipperPaths_new, [])))"

definition strictly_cross :: "'m geometry \<Rightarrow> 'm WallPoints3d \<Rightarrow> 'm WallPoints3d \<Rightarrow> bool" where
  "strictly_cross env wi wj \<longleftrightarrow>
     (let a = wall_A (wall_object wi); b = wall_B (wall_object wi);
          c = wall_A (wall_object wj); d = wall_B (wall_object wj)
      in ccw env a b c \<noteq> 0 \<and> ccw env a b d \<noteq> 0 \<and> ccw env a b c \<noteq> ccw env a b d
       \<and> ccw env c d a \<noteq> 0 \<and> ccw env c d b \<noteq> 0 \<and> ccw env c d a \<noteq> ccw env c d b)"

text \<open>
  Example walls and two instances of the outside operations. Both use the usual
  orientation determinant, project a wall by dropping the elevation, and find no
  intersection point; in \<open>overlapping_geometry\<close> the intersection of two path sets is
  the first of them, in \<open>disjoint_geometry\<close> it is empty. Walls 1 and 2 form an X seen
  from the viewer at (5, -5); wall 3 lies to one side of both.
\<close>

definition example_orient :: "Point \<Rightarrow> Point \<Rightarrow> Point \<Rightarrow> rat" where
  "example_orient a b c =
     (case (a, b, c) of (Point ax ay, Point bx by, Point cx cy) \<Rightarrow>
        (ay - cy) * (bx - cx) - (ax - cx) * (by - cy))"

definition overlapping_geometry :: "unit geometry" where
  "overlapping_geometry =
     \<lparr>maxR = 1000, orient2dFast = example_orient,
      lineLineIntersection = (\<lambda>a b c d. None),
      perspectiveTransform = (\<lambda>w. map to2d (wall_points w)),
      fromPolygons = (\<lambda>polys. \<lparr>paths = polys\<rparr>),
      intersectPaths = (\<lambda>p q. p),
      cp_combine = (\<lambda>p. p), cp_clean = (\<lambda>p. p)\<rparr>"

definition disjoint_geometry :: "unit geometry" where
  "disjoint_geometry = overlapping_geometry\<lparr>intersectPaths := (\<lambda>p q. ClipperPaths_new)\<rparr>"

definition wall1 :: "unit WallPoints3d" where
  "wall1 = WallPoints3d_new 1000
     \<lparr>wall_A = Point 0 0, wall_B = Point 10 10, topZ = Some 10, bottomZ = Some 0\<rparr>"

definition wall2 :: "unit WallPoints3d" where
  "wall2 = WallPoints3d_new 1000
     \<lparr>wall_A = Point 0 10, wall_B = Point 10 0, topZ = Some 10, bottomZ = Some 0\<rparr>"

definition wall3 :: "unit WallPoints3d" where
  "wall3 = WallPoints3d_new 1000
     \<lparr>wall_A = Point 20 0, wall_B = Point 30 0, topZ = None, bottomZ = Some 0\<rparr>"

definition example_viewer :: Point3d where
  "example_viewer = Point3d 5 (- 5) 0"

section \<open>Properties of the polygon iterators\<close>

lemma iteratePoints_loop_take:
  "even L \<Longrightarrow> L \<le> length pts \<Longrightarrow> i \<le> L \<Longrightarrow> even i \<Longrightarrow>
   iteratePoints_loop pts (int L) i = vertices (drop i (take L pts))"
proof (induction pts "int L" i rule: iteratePoints_loop.induct)
  case (1 pts i)
  show ?case
  proof (cases "i < L")
    case False
    with 1(4) have "i = L" by simp
    then show ?thesis by (simp add: iteratePoints_loop.simps [of pts _ L])
  next
    case True
    with 1(2,5) have lt: "i + 1 < L" by presburger
    let ?q = "take L pts"
    from lt 1(3) have len: "length ?q = L" by simp
    from lt len have d: "drop i ?q = ?q ! i # ?q ! (i + 1) # drop (i + 2) ?q"
      by (metis Cons_nth_drop_Suc Suc_eq_plus1 add_2_eq_Suc' add_lessD1)
    have "iteratePoints_loop pts (int L) (i + 2) = vertices (drop (i + 2) ?q)"
      using 1 True lt by simp
    then show ?thesis
      using True lt d 1(3)
      by (simp add: iteratePoints_loop.simps [of pts _ i] arr_at_def PIXI_Point_def)
  qed
qed

lemma vertices_butlast2:
  "even (length xs) \<Longrightarrow> vertices (take (length xs - 2) xs) = butlast (vertices xs)"
proof (induction xs rule: vertices.induct)
  case (1 a b r)
  show ?case
  proof (cases r)
    case Nil
    then show ?thesis by simp
  next
    case (Cons c r')
    with 1 obtain d r'' where r: "r = c # d # r''"
      by (cases r') auto
    with 1 show ?thesis by simp
  qed
qed simp_all

lemma iteratePoints_open: "iteratePoints P True = iteratePoints_loop (points P) (int (length (points P))) 0"
  by (simp add: iteratePoints_def)

lemma iteratePoints_closed:
  "isClosed P \<Longrightarrow> iteratePoints P False = iteratePoints_loop (points P) (int (length (points P)) - 2) 0"
  by (simp add: iteratePoints_def)

lemma iteratePoints_loop_neg: "len \<le> 0 \<Longrightarrow> iteratePoints_loop pts len i = []"
  by (subst iteratePoints_loop.simps) simp

lemma iteratePoints_close_true:
  assumes "even (length (points P))"
  shows "iteratePoints P True = vertices (points P)"
proof -
  have "iteratePoints_loop (points P) (int (length (points P))) 0 = vertices (drop 0 (take (length (points P)) (points P)))"
    by (rule iteratePoints_loop_take [OF assms]) simp_all
  then show ?thesis by (simp add: iteratePoints_open)
qed

lemma iteratePoints_close_false:
  assumes "even (length (points P))" and c: "isClosed P"
  shows "iteratePoints P False = butlast (vertices (points P))"
proof (cases "length (points P) < 2")
  case True
  then have e: "points P = []" using assms(1) by (cases "points P" rule: vertices.cases) simp_all
  have "iteratePoints_loop (points P) (int (length (points P)) - 2) 0 = []"
    by (rule iteratePoints_loop_neg) (simp add: e)
  then show ?thesis using c e by (simp add: iteratePoints_closed)
next
  case False
  then have eq: "int (length (points P)) - 2 = int (length (points P) - 2)" by simp
  have ev: "even (length (points P) - 2)" using assms(1) False by simp
  have "iteratePoints_loop (points P) (int (length (points P) - 2)) 0
        = vertices (drop 0 (take (length (points P) - 2) (points P)))"
    by (rule iteratePoints_loop_take [OF ev]) simp_all
  then have "iteratePoints P False = vertices (take (length (points P) - 2) (points P))"
    by (simp only: iteratePoints_closed [OF c] eq drop_0)
  then show ?thesis
    using vertices_butlast2 [OF assms(1)] by simp
qed

lemma iteratePoints_open_triangle:
  "iteratePoints open_triangle True = [Point 0 0, Point 1 0, Point 0 1]"
  by code_simp

lemma iteratePoints_closed_triangle:
  "iteratePoints closed_triangle True = [Point 0 0, Point 1 0, Point 0 1, Point 0 0]"
  by code_simp

text \<open>
  C9, first half as the claim states it, refuted: with \<open>close = true\<close> the iterator
  already yields every vertex, so appending the first point afterwards produces one vertex
  too many, for an open polygon and for a closed one alike.
\<close>

theorem iteratePoints_reclose_counterexample:
  "iteratePoints open_triangle True @ [hd (iteratePoints open_triangle True)]
     \<noteq> vertices (points open_triangle)
   \<and> iteratePoints closed_triangle True @ [hd (iteratePoints closed_triangle True)]
     \<noteq> vertices (points closed_triangle)"
  by (simp add: iteratePoints_open_triangle iteratePoints_closed_triangle)
     (simp add: open_triangle_def closed_triangle_def)


text \<open>
  C9, amended: for every polygon over a well-formed (even-length) coordinate array,
  \<open>iteratePoints\<close> with \<open>close = true\<close> yields exactly the polygon's vertex sequence,
  with nothing left to re-close; with \<open>close = false\<close> on a closed polygon it yields
  that sequence without its last (closing) vertex.
\<close>

theorem iteratePoints_vertices:
  assumes "even (length (points P))"
  shows "iteratePoints P True = vertices (points P)
       \<and> (isClosed P \<longrightarrow> iteratePoints P False = butlast (vertices (points P)))"
  using assms iteratePoints_close_true iteratePoints_close_false by blast

theorem iteratePoints_vertices_witness:
  "even (length (points closed_triangle))
   \<and> iteratePoints closed_triangle True = [Point 0 0, Point 1 0, Point 0 1, Point 0 0]
   \<and> isClosed closed_triangle
   \<and> iteratePoints closed_triangle False = [Point 0 0, Point 1 0, Point 0 1]"
  using iteratePoints_vertices [of closed_triangle]
  by (simp add: closed_triangle_def)

text \<open>
  C10: a polygon whose coordinate array holds fewer than four values has no edge:
  \<open>iterateEdges\<close> yields nothing, whether or not the closing edge is requested.
\<close>

theorem iterateEdges_short:
  assumes "length (points P) < 4"
  shows "iterateEdges P True = [] \<and> iterateEdges P False = []"
  using assms by (simp add: iterateEdges_def)

theorem iterateEdges_short_witness:
  "length (points \<lparr>points = [3, 4], isClosed = False\<rparr>) < 4
   \<and> iterateEdges \<lparr>points = [3, 4], isClosed = False\<rparr> True = []
   \<and> iterateEdges \<lparr>points = [3, 4], isClosed = False\<rparr> False = []"
  using iterateEdges_short [of "\<lparr>points = [3, 4], isClosed = False\<rparr>"]
  by simp

section \<open>Properties of the catalog and its derived lists\<close>

lemma order_loop_filter:
  "order_loop cs (ord, un) = (ord @ filter has_priority cs, un @ filter (\<lambda>c. \<not> has_priority c) cs)"
  by (induction cs arbitrary: ord un) simp_all

lemma updateCoverTypesOrder_eq:
  "updateCoverTypesOrder s =
     s\<lparr>coverTypesOrdered := derived_ordered (coverObjectsMap s),
       coverTypesUnordered := derived_unordered (coverObjectsMap s),
       coverTypesModified := False\<rparr>"
  by (simp add: updateCoverTypesOrder_def order_loop_filter derived_ordered_def derived_unordered_def)

lemma cache_ok_update: "cache_ok (updateCoverTypesOrder s)"
  by (simp add: updateCoverTypesOrder_eq cache_ok_def)

lemma get_ordered_eq:
  "cache_ok s \<Longrightarrow> fst (get_coverTypesOrdered s) = derived_ordered (coverObjectsMap s)"
  by (auto simp: get_coverTypesOrdered_def updateCoverTypesOrder_eq cache_ok_def)

lemma get_unordered_eq:
  "cache_ok s \<Longrightarrow> fst (get_coverTypesUnordered s) = derived_unordered (coverObjectsMap s)"
  by (auto simp: get_coverTypesUnordered_def updateCoverTypesOrder_eq cache_ok_def)

lemma get_ordered_state:
  "snd (get_coverTypesOrdered s) = (if coverTypesModified s then updateCoverTypesOrder s else s)"
  by (simp add: get_coverTypesOrdered_def Let_def)

lemma get_unordered_state:
  "snd (get_coverTypesUnordered s) = (if coverTypesModified s then updateCoverTypesOrder s else s)"
  by (simp add: get_coverTypesUnordered_def Let_def)

lemma read_keeps_catalog:
  "coverObjectsMap (snd (get_coverTypesOrdered s)) = coverObjectsMap s"
  "coverObjectsMap (snd (get_coverTypesUnordered s)) = coverObjectsMap s"
  by (simp_all add: get_ordered_state get_unordered_state updateCoverTypesOrder_eq)

lemma read_cache_ok:
  "cache_ok s \<Longrightarrow> cache_ok (snd (get_coverTypesOrdered s))"
  "cache_ok s \<Longrightarrow> cache_ok (snd (get_coverTypesUnordered s))"
  by (simp_all add: get_ordered_state get_unordered_state cache_ok_update)

lemma read_clean:
  "cache_ok s \<Longrightarrow> \<not> coverTypesModified (snd (get_coverTypesOrdered s))"
  "cache_ok s \<Longrightarrow> \<not> coverTypesModified (snd (get_coverTypesUnordered s))"
  by (simp_all add: get_ordered_state get_unordered_state updateCoverTypesOrder_eq)

lemma mutation_marks_dirty:
  "coverTypesModified (addCoverType c s)"
  "coverTypesModified (updateCoverType k config s)"
  "coverTypesModified (removeCoverType k s)"
  by (simp_all add: addCoverType_def updateCoverType_def removeCoverType_def coverTypesUpdated_def)

lemma reachable_cache_ok: "reachable s \<Longrightarrow> cache_ok s"
proof (induction rule: reachable.induct)
  case reach_init
  show ?case by (simp add: cache_ok_def initial_catalog_def)
qed (simp_all add: read_cache_ok, simp_all add: cache_ok_def mutation_marks_dirty)

lemma sorted_desc_derived:
  "sorted_wrt (\<lambda>a b. priority_num a \<ge> priority_num b) (derived_ordered cat)"
proof -
  have "sorted (map (\<lambda>c. - priority_num c) (derived_ordered cat))"
    unfolding derived_ordered_def by (rule sorted_sort_key)
  then show ?thesis by (simp add: sorted_map)
qed

lemma is_partition_derived:
  "is_partition cat (derived_ordered cat) (derived_unordered cat)"
proof -
  have "mset (derived_ordered cat) + mset (derived_unordered cat) = mset cat"
    by (simp add: derived_ordered_def derived_unordered_def)
  moreover have "list_all has_priority (derived_ordered cat)"
    by (simp add: derived_ordered_def list_all_iff)
  moreover have "list_all (\<lambda>c. \<not> has_priority c) (derived_unordered cat)"
    by (simp add: derived_unordered_def list_all_iff)
  ultimately show ?thesis
    using sorted_desc_derived by (simp add: is_partition_def)
qed


text \<open>
  C3: in every catalog state that additions, updates, removals and reads can produce,
  a read of either derived list leaves the ordered and the unordered list a partition
  of the catalog (each entry exactly once; the entries with a truthy priority in the
  ordered list, by descending priority; the others in the unordered list); every
  mutation sets the flag, and a read with the flag set rebuilds both lists and clears it.
\<close>

theorem derived_lists_partition:
  assumes "reachable s"
  shows "is_partition (coverObjectsMap s) (fst (get_coverTypesOrdered s))
           (coverTypesUnordered (snd (get_coverTypesOrdered s)))
       \<and> is_partition (coverObjectsMap s) (coverTypesOrdered (snd (get_coverTypesUnordered s)))
           (fst (get_coverTypesUnordered s))
       \<and> is_partition (coverObjectsMap s) (fst (get_coverTypesOrdered s))
           (fst (get_coverTypesUnordered (snd (get_coverTypesOrdered s))))
       \<and> coverTypesModified (addCoverType c s)
       \<and> coverTypesModified (updateCoverType k config s)
       \<and> coverTypesModified (removeCoverType k s)
       \<and> (coverTypesModified s \<longrightarrow>
            snd (get_coverTypesOrdered s) = updateCoverTypesOrder s
          \<and> snd (get_coverTypesUnordered s) = updateCoverTypesOrder s
          \<and> \<not> coverTypesModified (updateCoverTypesOrder s))"
proof -
  let ?cat = "coverObjectsMap s"
  from assms have ok: "cache_ok s" by (rule reachable_cache_ok)
  have o: "fst (get_coverTypesOrdered s) = derived_ordered ?cat"
    using ok by (rule get_ordered_eq)
  have u: "fst (get_coverTypesUnordered s) = derived_unordered ?cat"
    using ok by (rule get_unordered_eq)
  have ok1: "cache_ok (snd (get_coverTypesOrdered s))"
    using ok by (rule read_cache_ok)
  have u1: "coverTypesUnordered (snd (get_coverTypesOrdered s)) = derived_unordered ?cat"
    using ok by (auto simp: get_ordered_state updateCoverTypesOrder_eq cache_ok_def)
  have o1: "coverTypesOrdered (snd (get_coverTypesUnordered s)) = derived_ordered ?cat"
    using ok by (auto simp: get_unordered_state updateCoverTypesOrder_eq cache_ok_def)
  have u2: "fst (get_coverTypesUnordered (snd (get_coverTypesOrdered s))) = derived_unordered ?cat"
    using get_unordered_eq [OF ok1] by (simp add: read_keeps_catalog)
  have p: "is_partition ?cat (derived_ordered ?cat) (derived_unordered ?cat)"
    by (rule is_partition_derived)
  have r: "coverTypesModified s \<longrightarrow>
            snd (get_coverTypesOrdered s) = updateCoverTypesOrder s
          \<and> snd (get_coverTypesUnordered s) = updateCoverTypesOrder s
          \<and> \<not> coverTypesModified (updateCoverTypesOrder s)"
    by (simp add: get_ordered_state get_unordered_state updateCoverTypesOrder_eq)
  from p have "is_partition ?cat (fst (get_coverTypesOrdered s))
           (coverTypesUnordered (snd (get_coverTypesOrdered s)))"
    by (simp only: o u1)
  moreover from p have "is_partition ?cat (coverTypesOrdered (snd (get_coverTypesUnordered s)))
           (fst (get_coverTypesUnordered s))"
    by (simp only: u o1)
  moreover from p have "is_partition ?cat (fst (get_coverTypesOrdered s))
           (fst (get_coverTypesUnordered (snd (get_coverTypesOrdered s))))"
    by (simp only: o u2)
  ultimately show ?thesis
    using r mutation_marks_dirty by blast
qed

lemma reachable_example: "reachable example_catalog"
  unfolding example_catalog_def by (intro reachable.intros)

lemma example_lists:
  "fst (get_coverTypesOrdered example_catalog) = [ctA, ctB]"
  "fst (get_coverTypesUnordered example_catalog) = [ctC, ctD]"
  "coverObjectsMap example_catalog = [ctB, ctC, ctA, ctD]"
  by code_simp+

theorem derived_lists_partition_witness:
  "reachable example_catalog
   \<and> is_partition [ctB, ctC, ctA, ctD] [ctA, ctB] [ctC, ctD]
   \<and> coverTypesModified (removeCoverType ''B'' example_catalog)
   \<and> snd (get_coverTypesOrdered example_catalog) = updateCoverTypesOrder example_catalog"
proof -
  have m: "coverTypesModified example_catalog"
    by (simp add: example_catalog_def mutation_marks_dirty)
  have u: "coverTypesUnordered (snd (get_coverTypesOrdered example_catalog))
           = fst (get_coverTypesUnordered example_catalog)"
    by (simp add: get_coverTypesOrdered_def get_coverTypesUnordered_def Let_def)
  show ?thesis
    using derived_lists_partition [OF reachable_example, of ctA "''B''" ctA] m u
    by (simp add: reachable_example example_lists)
qed

section \<open>Properties of coverTypesForToken\<close>

lemma test_ordered_types:
  "r_types (test_ordered ap ord r) =
     (case find ap ord of None \<Rightarrow> r_types r | Some t \<Rightarrow> Set_add t (r_types r))"
  by (induction ord arbitrary: r) (simp_all add: Let_def split: option.splits)

lemma test_ordered_tested:
  "r_tested (test_ordered ap ord r) =
     r_tested r @ takeWhile (\<lambda>c. \<not> ap c) ord @ take 1 (dropWhile (\<lambda>c. \<not> ap c) ord)"
  by (induction ord arbitrary: r) (simp_all add: Let_def)

lemma test_unordered_types:
  "r_types (test_unordered ap un r) = fold Set_add (filter ap un) (r_types r)"
  by (induction un arbitrary: r) (simp_all add: Let_def Set_length_def)

lemma test_unordered_tested:
  "r_tested (test_unordered ap un r) = r_tested r @ un"
  by (induction un arbitrary: r) (simp_all add: Let_def Set_length_def)

lemma find_dropWhile: "find P xs = (case dropWhile (\<lambda>x. \<not> P x) xs of [] \<Rightarrow> None | x # _ \<Rightarrow> Some x)"
  by (induction xs) simp_all

lemma coverTypesForToken_run_eq:
  assumes "cache_ok s"
  shows "fst (coverTypesForToken_run calc s a t) =
           test_unordered (\<lambda>ct. coverTypeApplies calc ct a t)
             (derived_unordered (coverObjectsMap s))
             (test_ordered (\<lambda>ct. coverTypeApplies calc ct a t)
                (derived_ordered (coverObjectsMap s)) \<lparr>r_types = [], r_tested = []\<rparr>)"
proof -
  obtain ord s1 where g1: "get_coverTypesOrdered s = (ord, s1)" by (cases "get_coverTypesOrdered s")
  obtain un s2 where g2: "get_coverTypesUnordered s1 = (un, s2)" by (cases "get_coverTypesUnordered s1")
  have o: "ord = derived_ordered (coverObjectsMap s)"
    using get_ordered_eq [OF assms] g1 by simp
  have "cache_ok s1" using read_cache_ok(1) [OF assms] g1 by simp
  moreover have "coverObjectsMap s1 = coverObjectsMap s"
    using read_keeps_catalog(1) [of s] g1 by simp
  ultimately have u: "un = derived_unordered (coverObjectsMap s)"
    using get_unordered_eq [of s1] g2 by simp
  show ?thesis
    using g1 g2 by (simp add: coverTypesForToken_run_def Let_def o u)
qed

lemma fold_Set_add_filter:
  "\<forall>c \<in> set xs. \<not> P c \<Longrightarrow> filter P (fold Set_add xs ys) = filter P ys"
  by (induction xs arbitrary: ys) (simp_all add: Set_add_def)

lemma set_fold_Set_add: "set (fold Set_add xs ys) = set ys \<union> set xs"
  by (induction xs arbitrary: ys) (auto simp: Set_add_def)

lemma derived_ordered_has_priority: "\<forall>c \<in> set (derived_ordered cat). has_priority c"
  by (simp add: derived_ordered_def)

lemma derived_unordered_no_priority: "\<forall>c \<in> set (derived_unordered cat). \<not> has_priority c"
  by (simp add: derived_unordered_def)

lemma set_first_match: "set (take 1 (dropWhile Q xs)) \<subseteq> set xs"
  by (meson in_set_takeD set_dropWhileD subsetI)

lemma set_tested_prefix: "set (takeWhile Q xs @ take 1 (dropWhile Q xs)) \<subseteq> set xs"
  using set_first_match [of Q xs] set_takeWhileD [of _ Q xs] by auto

lemma first_match_types:
  "r_types (test_ordered ap ord \<lparr>r_types = [], r_tested = []\<rparr>) = take 1 (dropWhile (\<lambda>c. \<not> ap c) ord)"
  by (simp add: test_ordered_types find_dropWhile Set_add_def split: list.splits)

lemma coverTypesForToken_eq:
  assumes "cache_ok s"
  shows "coverTypesForToken calc s a t =
           fold Set_add (filter (\<lambda>ct. coverTypeApplies calc ct a t) (derived_unordered (coverObjectsMap s)))
             (take 1 (dropWhile (\<lambda>ct. \<not> coverTypeApplies calc ct a t) (derived_ordered (coverObjectsMap s))))"
  by (simp add: coverTypesForToken_def coverTypesForToken_run_eq [OF assms]
      test_unordered_types first_match_types)

lemma prioritized_types:
  assumes "cache_ok s"
  shows "filter has_priority (coverTypesForToken calc s a t) =
           take 1 (dropWhile (\<lambda>ct. \<not> coverTypeApplies calc ct a t) (derived_ordered (coverObjectsMap s)))"
proof -
  let ?ap = "\<lambda>ct. coverTypeApplies calc ct a t"
  let ?first = "take 1 (dropWhile (\<lambda>ct. \<not> ?ap ct) (derived_ordered (coverObjectsMap s)))"
  have "\<forall>c \<in> set (filter ?ap (derived_unordered (coverObjectsMap s))). \<not> has_priority c"
    by (simp add: derived_unordered_def)
  then have "filter has_priority (coverTypesForToken calc s a t) = filter has_priority ?first"
    unfolding coverTypesForToken_eq [OF assms] by (rule fold_Set_add_filter)
  moreover have "\<forall>c \<in> set ?first. has_priority c"
    using derived_ordered_has_priority [of "coverObjectsMap s"]
      set_first_match [of "\<lambda>ct. \<not> ?ap ct" "derived_ordered (coverObjectsMap s)"] by blast
  ultimately show ?thesis by simp
qed

lemma at_most_one_prioritized:
  "cache_ok s \<Longrightarrow> length (filter has_priority (coverTypesForToken calc s a t)) \<le> 1"
  by (simp add: prioritized_types)

text \<open>
  C2: the prioritized categories are tested in descending priority order, the tests stop
  with the first category that applies, no prioritized category after it is tested, and
  the result holds at most one prioritized category, namely that first match.
\<close>

theorem prioritized_first_match:
  assumes "reachable s"
  shows "(let ord = fst (get_coverTypesOrdered s);
              applies = (\<lambda>ct. coverTypeApplies calc ct a t);
              r = fst (coverTypesForToken_run calc s a t)
          in sorted_wrt (\<lambda>x y. priority_num x \<ge> priority_num y) ord
           \<and> filter has_priority (r_tested r) =
               takeWhile (\<lambda>ct. \<not> applies ct) ord @ take 1 (dropWhile (\<lambda>ct. \<not> applies ct) ord)
           \<and> filter has_priority (r_types r) = take 1 (dropWhile (\<lambda>ct. \<not> applies ct) ord)
           \<and> length (filter has_priority (coverTypesForToken calc s a t)) \<le> 1)"
proof -
  let ?cat = "coverObjectsMap s"
  let ?ap = "\<lambda>ct. coverTypeApplies calc ct a t"
  let ?ord = "derived_ordered ?cat"
  from assms have ok: "cache_ok s" by (rule reachable_cache_ok)
  have o: "fst (get_coverTypesOrdered s) = ?ord" using ok by (rule get_ordered_eq)
  have hp: "filter has_priority (takeWhile (\<lambda>ct. \<not> ?ap ct) ?ord @ take 1 (dropWhile (\<lambda>ct. \<not> ?ap ct) ?ord))
            = takeWhile (\<lambda>ct. \<not> ?ap ct) ?ord @ take 1 (dropWhile (\<lambda>ct. \<not> ?ap ct) ?ord)"
    using derived_ordered_has_priority [of ?cat]
      set_tested_prefix [of "\<lambda>ct. \<not> ?ap ct" ?ord]
    by (intro filter_True) blast
  have np: "filter has_priority (derived_unordered ?cat) = []"
    by (simp add: derived_unordered_def)
  have tested: "filter has_priority (r_tested (fst (coverTypesForToken_run calc s a t))) =
        takeWhile (\<lambda>ct. \<not> ?ap ct) ?ord @ take 1 (dropWhile (\<lambda>ct. \<not> ?ap ct) ?ord)"
    unfolding coverTypesForToken_run_eq [OF ok] test_unordered_tested test_ordered_tested
    using hp np by simp
  have types: "filter has_priority (r_types (fst (coverTypesForToken_run calc s a t))) =
        take 1 (dropWhile (\<lambda>ct. \<not> ?ap ct) ?ord)"
    using prioritized_types [OF ok, of calc a t] by (simp add: coverTypesForToken_def)
  show ?thesis
    unfolding Let_def o
    using sorted_desc_derived [of ?cat] tested types at_most_one_prioritized [OF ok, of calc a t]
    by blast
qed

theorem prioritized_first_match_witness:
  "reachable example_catalog
   \<and> fst (get_coverTypesOrdered example_catalog) = [ctA, ctB]
   \<and> filter has_priority (r_tested (fst (coverTypesForToken_run calc_80 example_catalog ''attacker'' ''target''))) = [ctA]
   \<and> filter has_priority (r_types (fst (coverTypesForToken_run calc_80 example_catalog ''attacker'' ''target''))) = [ctA]
   \<and> length (filter has_priority (coverTypesForToken calc_80 example_catalog ''attacker'' ''target'')) \<le> 1"
proof -
  have ap: "coverTypeApplies calc_80 ctA ''attacker'' ''target''"
    by (simp add: coverTypeApplies_def percentCover_def calc_80_def ctA_def)
  show ?thesis
    using prioritized_first_match [OF reachable_example, of calc_80 "''attacker''" "''target''"] ap
    by (simp add: Let_def example_lists reachable_example)
qed

lemma example_run:
  "fst (coverTypesForToken_run calc_80 example_catalog ''attacker'' ''target'') =
     \<lparr>r_types = [ctA, ctC, ctD], r_tested = [ctA, ctC, ctD]\<rparr>"
  by code_simp

text \<open>
  C1, evaluated where the code departs from it: the catalog holds the prioritized
  category A and the unprioritized category D, which may not overlap; with an occlusion
  of 0.8 both apply. When the second loop reaches D the set already holds A (and C), yet
  D is tested and added, because the guard reads \<open>types.length\<close>, which a \<open>Set\<close>
  does not have.
\<close>

theorem nonoverlapping_added_to_nonempty_set:
  "coverTypesForToken calc_80 example_catalog ''attacker'' ''target'' = [ctA, ctC, ctD]
   \<and> \<not> canOverlap ctD \<and> \<not> has_priority ctD \<and> has_priority ctA
   \<and> r_tested (fst (coverTypesForToken_run calc_80 example_catalog ''attacker'' ''target'')) = [ctA, ctC, ctD]"
  by (simp add: coverTypesForToken_def example_run) (simp add: ctD_def ctA_def has_priority_def)

section \<open>Properties of the Pathfinder 2e specialisation\<close>

lemma upgrade_loop_found:
  "\<exists>b \<in> set toks. js_gt (size_of (size_value b)) up \<Longrightarrow>
   upgrade_loop size_value up lesserCover standardCover toks types =
     Set_add standardCover (Set_delete lesserCover types)"
  by (induction toks) (auto simp: Let_def)

lemma set_Set_add: "set (Set_add x xs) = insert x (set xs)"
  by (auto simp: Set_add_def)

lemma set_Set_delete: "set (Set_delete x xs) = set xs - {x}"
  by (auto simp: Set_delete_def)

text \<open>
  What the specialisation does once both of its lookups succeed: if the base result holds
  the category found under \<open>lesser_key\<close> and some blocking token has a size rank at
  least two above the larger of the attacker's and the target's rank (a label the table
  does not know counts as medium), the result is the base result with that category
  removed and the category found under \<open>standard_key\<close> added.
\<close>

lemma pf2e_lesser_upgraded:
  assumes "Map_get standard_key (coverObjectsMap s) = Some standardCover"
    and "Map_get lesser_key (coverObjectsMap s) = Some lesserCover"
    and "lesserCover \<in> set (coverTypesForToken calc s a t)"
    and "size_of (size_value a) = Num ra"
    and "size_of (size_value t) = Num rt"
    and "b \<in> set (blockingTokens a)"
    and "size_of (size_value b) = Num rb"
    and "rb \<ge> max ra rt + 2"
  shows "set (PF2E_coverTypesForToken calc size_value blockingTokens s a t) =
           (set (coverTypesForToken calc s a t) - {lesserCover}) \<union> {standardCover}"
proof -
  let ?types = "coverTypesForToken calc s a t"
  let ?up = "js_plus1 (Math_max (size_of (size_value t)) (size_of (size_value a)))"
  have up: "?up = Num (max rt ra + 1)"
    using assms(4,5) by (simp add: js_plus1_def Math_max_def)
  have "js_gt (size_of (size_value b)) ?up"
    using assms(7,8) unfolding up by (simp add: js_gt_def max.commute)
  with assms(6) have ex: "\<exists>b \<in> set (blockingTokens a). js_gt (size_of (size_value b)) ?up"
    by blast
  have ne: "Set_size ?types \<noteq> 0"
    using assms(3) by (auto simp: Set_size_def)
  have "PF2E_coverTypesForToken calc size_value blockingTokens s a t =
          upgrade_loop size_value ?up lesserCover standardCover (blockingTokens a) ?types"
    using ne assms(1,2,3) by (simp add: PF2E_coverTypesForToken_def Let_def Set_has_def)
  also have "\<dots> = Set_add standardCover (Set_delete lesserCover ?types)"
    using ex by (rule upgrade_loop_found)
  finally show ?thesis
    by (simp add: set_Set_add set_Set_delete)
qed

lemma pf2e_base: "coverTypesForToken calc_30 pf2e_catalog ''attacker'' ''target'' = [pf_lesser]"
  by code_simp

lemma pf2e_result:
  "PF2E_coverTypesForToken calc_30 example_size example_blockers pf2e_catalog
     ''attacker'' ''target'' = [pf_standard]"
  by code_simp

lemma pf2e_lesser_upgraded_example:
  "Map_get standard_key (coverObjectsMap pf2e_catalog) = Some pf_standard
   \<and> Map_get lesser_key (coverObjectsMap pf2e_catalog) = Some pf_lesser
   \<and> pf_lesser \<in> set (coverTypesForToken calc_30 pf2e_catalog ''attacker'' ''target'')
   \<and> size_of (example_size ''attacker'') = Num 3
   \<and> size_of (example_size ''target'') = Num 3
   \<and> ''ogre'' \<in> set (example_blockers ''attacker'')
   \<and> size_of (example_size ''ogre'') = Num 5
   \<and> set (PF2E_coverTypesForToken calc_30 example_size example_blockers pf2e_catalog
            ''attacker'' ''target'') = {pf_standard}"
proof -
  have 1: "Map_get standard_key (coverObjectsMap pf2e_catalog) = Some pf_standard" by code_simp
  have 2: "Map_get lesser_key (coverObjectsMap pf2e_catalog) = Some pf_lesser" by code_simp
  have 3: "pf_lesser \<in> set (coverTypesForToken calc_30 pf2e_catalog ''attacker'' ''target'')"
    by (simp add: pf2e_base)
  have 4: "size_of (example_size ''attacker'') = Num 3" by code_simp
  have 5: "size_of (example_size ''target'') = Num 3" by code_simp
  have 6: "''ogre'' \<in> set (example_blockers ''attacker'')" by (simp add: example_blockers_def)
  have 7: "size_of (example_size ''ogre'') = Num 5" by code_simp
  have 8: "(5::rat) \<ge> max 3 3 + 2" by simp
  have ne: "pf_standard \<noteq> pf_lesser" by (simp add: pf_standard_def pf_lesser_def)
  from pf2e_lesser_upgraded [where size_value = example_size
      and blockingTokens = example_blockers, OF 1 2 3 4 5 6 7 8] 1 2 3 4 5 6 7 ne
  show ?thesis by (simp add: pf2e_base)
qed

text \<open>
  C5, evaluated where the code departs from it. The catalog holds the Pathfinder
  categories under ids of the form \<open>tokencover.pf2e.<name>\<close>, the form in which the
  module's own data refers to them. The base result is lesser cover, the attacker and the
  target are medium and a huge creature blocks, two size steps above them. Neither lookup
  finds its category, because the keys of the source are the literal text
  \<open>[MODULE_ID].pf2e.lesser\<close> and \<open>[MODULE_ID].pf2e.standard\<close>, so the guard returns the
  base result and lesser cover stays.
\<close>

theorem pf2e_module_ids_not_upgraded:
  "coverTypesForToken calc_30 tokencover_catalog ''attacker'' ''target'' = [tc_lesser]
   \<and> size_of (example_size ''attacker'') = Num 3
   \<and> size_of (example_size ''target'') = Num 3
   \<and> ''ogre'' \<in> set (example_blockers ''attacker'')
   \<and> size_of (example_size ''ogre'') = Num 5
   \<and> Map_get lesser_key (coverObjectsMap tokencover_catalog) = None
   \<and> Map_get standard_key (coverObjectsMap tokencover_catalog) = None
   \<and> PF2E_coverTypesForToken calc_30 example_size example_blockers tokencover_catalog
         ''attacker'' ''target'' = [tc_lesser]"
  by code_simp

section \<open>Properties of minimumCoverFromAttackers\<close>

lemma forEach_others:
  "set (snd (forEach_coverType cts (m, other))) = set other \<union> {c \<in> set cts. \<not> has_priority c}"
  by (induction cts arbitrary: m other) (auto simp: set_Set_add)

lemma forEach_min_none:
  "filter has_priority cts = [] \<Longrightarrow> fst (forEach_coverType cts (m, other)) = m"
  by (induction cts arbitrary: other) (simp_all split: if_splits)

lemma forEach_min_one:
  "filter has_priority cts = [c] \<Longrightarrow> fst (forEach_coverType cts (None, other)) = Some c"
  by (induction cts arbitrary: other) (simp_all add: forEach_min_none split: if_splits)

lemma set_Set_union: "set (Set_union xs ys) = set xs \<union> set ys"
  by (simp add: Set_union_def set_fold_Set_add)

lemma single_attacker:
  assumes "length (filter has_priority cts) \<le> 1"
  shows "\<exists>m other. forEach_coverType cts (None, []) = (m, other)
         \<and> set (case m of None \<Rightarrow> [] | Some c \<Rightarrow> [c]) \<union> set other = set cts"
proof -
  obtain m other where fe: "forEach_coverType cts (None, []) = (m, other)"
    by (cases "forEach_coverType cts (None, [])")
  have o: "set other = {c \<in> set cts. \<not> has_priority c}"
    using forEach_others [of cts None "[]"] fe by simp
  have "set (case m of None \<Rightarrow> [] | Some c \<Rightarrow> [c]) = {c \<in> set cts. has_priority c}"
  proof (cases "filter has_priority cts")
    case Nil
    then have "m = None" using forEach_min_none [of cts None "[]"] fe by simp
    moreover from Nil have "{c \<in> set cts. has_priority c} = {}"
      by (simp add: filter_empty_conv)
    ultimately show ?thesis by simp
  next
    case (Cons c rest)
    with assms have f: "filter has_priority cts = [c]" by simp
    then have "m = Some c" using forEach_min_one [of cts c "[]"] fe by simp
    moreover have "{c \<in> set cts. has_priority c} = {c}"
      using f by (metis list.set(1) list.simps(15) set_filter)
    ultimately show ?thesis by simp
  qed
  with o fe show ?thesis by auto
qed

text \<open>
  C7: without attackers the result is the empty set; with exactly one attacker the
  function returns, without failing, exactly the set that \<open>coverTypesForToken\<close> gives
  for that attacker and the target.
\<close>

theorem minimumCover_none_or_one:
  assumes "reachable s"
  shows "minimumCoverFromAttackers calc s t [] = Some []
       \<and> (\<exists>r. minimumCoverFromAttackers calc s t [a] = Some r
              \<and> set r = set (coverTypesForToken calc s a t))"
proof
  show "minimumCoverFromAttackers calc s t [] = Some []"
    by (simp add: minimumCoverFromAttackers_def)
next
  let ?cts = "coverTypesForToken calc s a t"
  have "length (filter has_priority ?cts) \<le> 1"
    using assms by (intro at_most_one_prioritized reachable_cache_ok)
  then obtain m other where fe: "forEach_coverType ?cts (None, []) = (m, other)"
    and st: "set (case m of None \<Rightarrow> [] | Some c \<Rightarrow> [c]) \<union> set other = set ?cts"
    using single_attacker by blast
  have "minimumCoverFromAttackers calc s t [a] =
          Some (Set_union (case m of None \<Rightarrow> [] | Some c \<Rightarrow> [c]) other)"
    using fe by (simp add: minimumCoverFromAttackers_def coverTypesFromAttacker_def)
  with st show "\<exists>r. minimumCoverFromAttackers calc s t [a] = Some r \<and> set r = set ?cts"
    by (simp add: set_Set_union)
qed

lemma example_minimum:
  "minimumCoverFromAttackers calc_80 example_catalog ''target'' [''attacker'']
     = Some [ctA, ctC, ctD]"
  by code_simp

theorem minimumCover_none_or_one_witness:
  "reachable example_catalog
   \<and> minimumCoverFromAttackers calc_80 example_catalog ''target'' [] = Some []
   \<and> minimumCoverFromAttackers calc_80 example_catalog ''target'' [''attacker'']
       = Some [ctA, ctC, ctD]
   \<and> set [ctA, ctC, ctD] = set (coverTypesForToken calc_80 example_catalog ''attacker'' ''target'')"
  using minimumCover_none_or_one [OF reachable_example, of calc_80 "''target''" "''attacker''"]
  by (simp add: reachable_example example_minimum)

section \<open>Properties of replaceCoverTypes\<close>

text \<open>
  C8, evaluated where the code departs from it. The token carries the icon of category A
  and an icon that belongs to no cover category. Asked to leave the token with A alone,
  which is what it already has, \<open>replaceCoverTypes\<close> removes the foreign icon and
  reports a change; asked for no cover at all on a token that carries only the foreign
  icon, it empties the list. (With no foreign icon present the call changes nothing and
  returns the number \<open>0\<close>.)
\<close>

theorem replaceCoverTypes_removes_foreign_icon:
  "replaceCoverTypes [ctB, ctC, ctA, ctD] [''icons/svg/skull.svg'', ''icons/a.svg''] [ctA]
     = ([''icons/a.svg''], Num 1)
   \<and> replaceCoverTypes [ctB, ctC, ctA, ctD] [''icons/svg/skull.svg''] []
     = ([], Bool True)
   \<and> ''icons/svg/skull.svg'' \<notin> set (map icon [ctB, ctC, ctA, ctD])
   \<and> replaceCoverTypes [ctB, ctC, ctA, ctD] [''icons/a.svg''] [ctA]
     = ([''icons/a.svg''], Num 0)"
  by code_simp

section \<open>Properties of combineTerrainWalls\<close>

lemma pair_step_paths:
  "fst (pair_step env v wi k wj (c, l)) =
     c\<lparr>paths := paths c @ paths (fst (pair_step env v wi k wj (ClipperPaths_new, [])))\<rparr>"
  by (simp add: pair_step_def Let_def add_if_paths_def ClipperPaths_add_def ClipperPaths_new_def
      split: option.splits prod.splits)

lemma pair_step_nothing:
  assumes "paths (fst (pair_step env v wi k wj (ClipperPaths_new, []))) = []"
  shows "fst (pair_step env v wi k wj st) = fst st"
proof (cases st)
  case (Pair c l)
  then show ?thesis using assms by (simp add: pair_step_paths [of env v wi k wj c l])
qed

lemma inner_loop_nothing:
  "\<forall>wj \<in> set ws. paths (fst (pair_step env v wi k wj (ClipperPaths_new, []))) = [] \<Longrightarrow>
   fst (inner_loop env v wi k ws st) = fst st"
proof (induction ws arbitrary: st)
  case Nil
  show ?case by simp
next
  case (Cons wj rest)
  have "fst (inner_loop env v wi k rest (pair_step env v wi k wj st))
        = fst (pair_step env v wi k wj st)"
    using Cons.prems by (intro Cons.IH) simp
  also have "\<dots> = fst st"
    using Cons.prems by (intro pair_step_nothing) simp
  finally show ?case by simp
qed

lemma outer_loop_nothing:
  "\<forall>i j. i < j \<and> j < length ws \<longrightarrow> pair_contribution env v (ws ! i) (ws ! j) = [] \<Longrightarrow>
   fst (outer_loop env v ws st) = fst st"
proof (induction ws arbitrary: st)
  case Nil
  show ?case by simp
next
  case (Cons wi rest)
  have tail: "\<forall>i j. i < j \<and> j < length rest \<longrightarrow> pair_contribution env v (rest ! i) (rest ! j) = []"
  proof (intro allI impI)
    fix i j assume "i < j \<and> j < length rest"
    then have "Suc i < Suc j \<and> Suc j < length (wi # rest)" by simp
    with Cons.prems have "pair_contribution env v ((wi # rest) ! Suc i) ((wi # rest) ! Suc j) = []"
      by blast
    then show "pair_contribution env v (rest ! i) (rest ! j) = []" by simp
  qed
  have head: "\<forall>wj \<in> set rest. pair_contribution env v wi wj = []"
  proof
    fix wj assume "wj \<in> set rest"
    then obtain j where j: "j < length rest" "rest ! j = wj" by (auto simp: in_set_conv_nth)
    then have "0 < Suc j \<and> Suc j < length (wi # rest)" by simp
    with Cons.prems have "pair_contribution env v ((wi # rest) ! 0) ((wi # rest) ! Suc j) = []"
      by blast
    with j show "pair_contribution env v wi wj = []" by simp
  qed
  let ?k = "ccw env (wall_A (wall_object wi)) (wall_B (wall_object wi)) v"
  have "fst (inner_loop env v wi ?k rest st) = fst st"
    using head by (intro inner_loop_nothing) (simp add: pair_contribution_def)
  then show ?case
    using Cons.IH [OF tail] by (simp add: Let_def)
qed

lemma combine_none:
  "fst (outer_loop env (to2d viewerLoc) walls (ClipperPaths_new, [])) = ClipperPaths_new \<Longrightarrow>
   fst (combineTerrainWalls env walls viewerLoc) = None"
  by (cases "outer_loop env (to2d viewerLoc) walls (ClipperPaths_new, [])")
     (simp add: combineTerrainWalls_def ClipperPaths_new_def)

lemma not_cross_contribution:
  assumes "\<not> strictly_cross env wi wj"
    and "paths (intersectPaths env (silhouette env wi) (silhouette env wj)) = []"
    and "paths (intersectPaths env (silhouette env wj) (silhouette env wi)) = []"
  shows "paths (fst (pair_step env v wi k wj (ClipperPaths_new, []))) = []"
proof -
  let ?a = "wall_A (wall_object wi)" and ?b = "wall_B (wall_object wi)"
  let ?c = "wall_A (wall_object wj)" and ?d = "wall_B (wall_object wj)"
  show ?thesis
  proof (cases "ccw env ?c ?d v = 0 \<or> \<not> (ccw env ?a ?b ?c \<noteq> 0 \<or> ccw env ?a ?b ?d \<noteq> 0)")
    case True
    then show ?thesis by (auto simp: pair_step_def Let_def ClipperPaths_new_def)
  next
    case False
    with assms(1) have "front_back env v wi k wj (ccw env ?c ?d v) = Some (wi, wj)
        \<or> front_back env v wi k wj (ccw env ?c ?d v) = Some (wj, wi)"
      by (auto simp: front_back_def strictly_cross_def Let_def)
    then show ?thesis
      using False assms(2,3)
      by (auto simp: pair_step_def Let_def add_if_paths_def ClipperPaths_new_def)
  qed
qed

text \<open>
  C4: \<open>combineTerrainWalls\<close> returns \<open>null\<close> for an empty collection, for a single
  wall, and whenever no pair of walls contributes a path; in particular for two walls
  whose ground segments do not strictly cross and whose silhouettes have an empty
  intersection, wherever the viewer stands.
\<close>

theorem combineTerrainWalls_null:
  "fst (combineTerrainWalls env [] viewerLoc) = None
   \<and> fst (combineTerrainWalls env [w] viewerLoc) = None
   \<and> ((\<forall>i j. i < j \<and> j < length walls \<longrightarrow>
          pair_contribution env (to2d viewerLoc) (walls ! i) (walls ! j) = [])
        \<longrightarrow> fst (combineTerrainWalls env walls viewerLoc) = None)
   \<and> (\<not> strictly_cross env wi wj
        \<and> paths (intersectPaths env (silhouette env wi) (silhouette env wj)) = []
        \<and> paths (intersectPaths env (silhouette env wj) (silhouette env wi)) = []
        \<longrightarrow> fst (combineTerrainWalls env [wi, wj] viewerLoc) = None)"
proof (intro conjI impI)
  show "fst (combineTerrainWalls env [] viewerLoc) = None"
    by (simp add: combineTerrainWalls_def ClipperPaths_new_def)
next
  show "fst (combineTerrainWalls env [w] viewerLoc) = None"
    by (simp add: combineTerrainWalls_def ClipperPaths_new_def Let_def)
next
  assume "\<forall>i j. i < j \<and> j < length walls \<longrightarrow>
          pair_contribution env (to2d viewerLoc) (walls ! i) (walls ! j) = []"
  then have "fst (outer_loop env (to2d viewerLoc) walls (ClipperPaths_new, [])) = ClipperPaths_new"
    using outer_loop_nothing [of walls env "to2d viewerLoc" "(ClipperPaths_new, [])"] by simp
  then show "fst (combineTerrainWalls env walls viewerLoc) = None"
    by (rule combine_none)
next
  assume a: "\<not> strictly_cross env wi wj
        \<and> paths (intersectPaths env (silhouette env wi) (silhouette env wj)) = []
        \<and> paths (intersectPaths env (silhouette env wj) (silhouette env wi)) = []"
  have "pair_contribution env (to2d viewerLoc) wi wj = []"
    unfolding pair_contribution_def using a by (intro not_cross_contribution) simp_all
  then have "\<forall>i j. i < j \<and> j < length [wi, wj] \<longrightarrow>
          pair_contribution env (to2d viewerLoc) ([wi, wj] ! i) ([wi, wj] ! j) = []"
    by (auto simp: less_Suc_eq)
  then have "fst (outer_loop env (to2d viewerLoc) [wi, wj] (ClipperPaths_new, [])) = ClipperPaths_new"
    using outer_loop_nothing [of "[wi, wj]" env "to2d viewerLoc" "(ClipperPaths_new, [])"] by simp
  then show "fst (combineTerrainWalls env [wi, wj] viewerLoc) = None"
    by (rule combine_none)
qed

lemma example_not_cross: "\<not> strictly_cross disjoint_geometry wall1 wall3"
  by code_simp

lemma example_viewer_not_collinear:
  "ccw disjoint_geometry (wall_A (wall_object wall1)) (wall_B (wall_object wall1)) (to2d example_viewer) \<noteq> 0"
  "ccw disjoint_geometry (wall_A (wall_object wall3)) (wall_B (wall_object wall3)) (to2d example_viewer) \<noteq> 0"
  by code_simp+

theorem combineTerrainWalls_null_witness:
  "\<not> strictly_cross disjoint_geometry wall1 wall3
   \<and> paths (intersectPaths disjoint_geometry (silhouette disjoint_geometry wall1)
              (silhouette disjoint_geometry wall3)) = []
   \<and> paths (intersectPaths disjoint_geometry (silhouette disjoint_geometry wall3)
              (silhouette disjoint_geometry wall1)) = []
   \<and> ccw disjoint_geometry (wall_A (wall_object wall1)) (wall_B (wall_object wall1))
        (to2d example_viewer) \<noteq> 0
   \<and> ccw disjoint_geometry (wall_A (wall_object wall3)) (wall_B (wall_object wall3))
        (to2d example_viewer) \<noteq> 0
   \<and> pair_contribution disjoint_geometry (to2d example_viewer) wall1 wall3 = []
   \<and> fst (combineTerrainWalls disjoint_geometry [wall1, wall3] example_viewer) = None"
proof -
  have i: "paths (intersectPaths disjoint_geometry (silhouette disjoint_geometry wall1)
              (silhouette disjoint_geometry wall3)) = []"
    "paths (intersectPaths disjoint_geometry (silhouette disjoint_geometry wall3)
              (silhouette disjoint_geometry wall1)) = []"
    by (simp_all add: disjoint_geometry_def ClipperPaths_new_def)
  have p: "pair_contribution disjoint_geometry (to2d example_viewer) wall1 wall3 = []"
    by code_simp
  show ?thesis
    using combineTerrainWalls_null [of disjoint_geometry example_viewer wall1 "[wall1, wall3]" wall1 wall3]
      example_not_cross example_viewer_not_collinear i p
    by simp
qed

lemma strictly_cross_front_back:
  "strictly_cross env wi wj \<Longrightarrow> front_back env v wi ccwABV wj ccwCDV = None"
  by (auto simp: strictly_cross_def front_back_def Let_def)

text \<open>
  C6: when the walls of a pair strictly cross and \<open>lineLineIntersection\<close> finds no
  point, the pair leaves the accumulated paths as they are, exactly one warning is
  written, and the inner loop goes on with the remaining walls from that state: the
  step is a value, not an exception.
\<close>

theorem crossing_without_intersection:
  assumes "ccw env (wall_A (wall_object wj)) (wall_B (wall_object wj)) v \<noteq> 0"
    and "strictly_cross env wi wj"
    and "lineLineIntersection env (wall_A (wall_object wi)) (wall_B (wall_object wi))
           (wall_A (wall_object wj)) (wall_B (wall_object wj)) = None"
  shows "pair_step env v wi ccwABV wj (combined, console) = (combined, console @ [cross_warning])
       \<and> inner_loop env v wi ccwABV (wj # rest) (combined, console) =
           inner_loop env v wi ccwABV rest (combined, console @ [cross_warning])"
proof -
  have h: "handleTerrainWallsCross env wi wj ccwABV
             (ccw env (wall_A (wall_object wj)) (wall_B (wall_object wj)) v)
           = (None, [cross_warning])"
    using assms(3) by (simp add: handleTerrainWallsCross_def Let_def)
  have nz: "ccw env (wall_A (wall_object wi)) (wall_B (wall_object wi)) (wall_A (wall_object wj)) \<noteq> 0"
    using assms(2) by (simp add: strictly_cross_def Let_def)
  have "pair_step env v wi ccwABV wj (combined, console) = (combined, console @ [cross_warning])"
    using assms(1) nz h strictly_cross_front_back [OF assms(2)]
    by (simp add: pair_step_def Let_def)
  then show ?thesis by simp
qed

lemma example_cross: "strictly_cross overlapping_geometry wall1 wall2"
  by code_simp

lemma example_run_walls:
  "combineTerrainWalls overlapping_geometry [wall1, wall2, wall3] example_viewer =
     (Some \<lparr>paths = [[Point 20 0, Point 30 0, Point 30 0, Point 20 0],
                      [Point 0 10, Point 10 0, Point 10 0, Point 0 10]]\<rparr>,
      [cross_warning])"
  by code_simp

theorem crossing_without_intersection_witness:
  "ccw overlapping_geometry (wall_A (wall_object wall2)) (wall_B (wall_object wall2))
     (to2d example_viewer) \<noteq> 0
   \<and> strictly_cross overlapping_geometry wall1 wall2
   \<and> lineLineIntersection overlapping_geometry (wall_A (wall_object wall1))
        (wall_B (wall_object wall1)) (wall_A (wall_object wall2)) (wall_B (wall_object wall2)) = None
   \<and> pair_step overlapping_geometry (to2d example_viewer) wall1 1 wall2 (ClipperPaths_new, [])
       = (ClipperPaths_new, [cross_warning])
   \<and> inner_loop overlapping_geometry (to2d example_viewer) wall1 1 [wall2, wall3]
        (ClipperPaths_new, [])
       = inner_loop overlapping_geometry (to2d example_viewer) wall1 1 [wall3]
           (ClipperPaths_new, [cross_warning])"
proof -
  have 1: "ccw overlapping_geometry (wall_A (wall_object wall2)) (wall_B (wall_object wall2))
     (to2d example_viewer) \<noteq> 0" by code_simp
  have 3: "lineLineIntersection overlapping_geometry (wall_A (wall_object wall1))
        (wall_B (wall_object wall1)) (wall_A (wall_object wall2)) (wall_B (wall_object wall2)) = None"
    by (simp add: overlapping_geometry_def)
  from crossing_without_intersection [OF 1 example_cross 3, of 1 ClipperPaths_new "[]" "[wall3]"]
    1 example_cross 3
  show ?thesis by simp
qed

end
